theory Spec2Isabelle
  imports Complex_Main "HOL-Library.Log_Nat"
begin

section \<open>Python values and exceptions\<close>

text \<open>
  The notebook \<^verbatim>\<open>Task1.ipynb\<close> is modelled function by function. Python integers are
  \<open>int\<close>, counts of array rows are \<open>nat\<close>, and floating-point numbers are modelled by the
  reals: rounding, NaN and infinities are outside the model. An exception is a value
  \<open>Inl e\<close> of a sum type. A \<open>ValueError\<close> carries the library check that raised it.
\<close>

datatype value_error =
    NeedOneArray        \<comment> \<open>\<^verbatim>\<open>np.vstack\<close> of an empty list\<close>
  | DimsMustMatch       \<comment> \<open>\<^verbatim>\<open>np.vstack\<close> of arrays of different widths\<close>
  | CouldNotBroadcast   \<comment> \<open>assignment into a slice of another shape\<close>
  | BadNComponents      \<comment> \<open>\<^verbatim>\<open>PCA.fit\<close> with more components than samples or features\<close>
  | EmptySequence       \<comment> \<open>\<^verbatim>\<open>np.argmax\<close> of an empty array\<close>

datatype error =
    ValueError value_error
  | IndexError
  | IOError
  | OverflowError
  | ZeroDivisionError

text \<open>Python's \<^verbatim>\<open>round\<close> on a float: to the nearest integer, a tie to the even one.\<close>

definition py_round :: "real \<Rightarrow> int" where
  "py_round x =
     (let f = \<lfloor>x\<rfloor>; d = x - of_int f in
      if d < 1 / 2 then f
      else if 1 / 2 < d then f + 1
      else if even f then f else f + 1)"

section \<open>Frame Sampler: \<^verbatim>\<open>extract_frames\<close>\<close>

text \<open>
  The mapping written to and read from \<^verbatim>\<open>frame_mapping.json\<close>, a video capture (whether it
  opened, its \<^verbatim>\<open>CAP_PROP_FPS\<close>, and the frames \<^verbatim>\<open>cap.read()\<close> yields before it reports the
  end), and the part of the world the sampler touches: the directories, the mapping files
  and the frame files by output folder (a frame file by its \<^verbatim>\<open>saved\<close> number), and two
  counters of the decoder's use: captures constructed and calls of \<^verbatim>\<open>cap.read()\<close>.
\<close>

record frame_mapping =
  orig_fps :: real
  frame_step :: int
  orig_indices :: "int list"

record 'img capture =
  isOpened :: bool
  cap_fps :: real
  cap_frames :: "'img list"

record 'img world =
  dirs :: "string set"
  mapping_files :: "string \<rightharpoonup> frame_mapping"
  frame_files :: "string \<times> int \<rightharpoonup> 'img"
  cap_opens :: nat
  cap_reads :: nat

text \<open>
  The resize of a kept frame. \<open>shape\<close> gives \<open>(h, w)\<close> and \<open>cv_resize\<close> is OpenCV's resize to
  a target \<open>(width, height)\<close>; both are external. A frame of no pixels makes the division
  raise.
\<close>

definition shrink ::
  "('img \<Rightarrow> nat \<times> nat) \<Rightarrow> ('img \<Rightarrow> int \<times> int \<Rightarrow> 'img) \<Rightarrow> nat \<Rightarrow> 'img \<Rightarrow> error + 'img" where
  "shrink shape cv_resize max_pixels frame =
     (case shape frame of (h, w) \<Rightarrow>
        if w * h = 0 then Inl ZeroDivisionError
        else
          let scale = sqrt (real max_pixels / real (w * h)) in
          Inr (if scale < 1
               then cv_resize frame (\<lfloor>real w * scale\<rfloor>, \<lfloor>real h * scale\<rfloor>)
               else frame))"

text \<open>
  The \<^verbatim>\<open>while True\<close> loop over \<^verbatim>\<open>cap.read()\<close>, with its variables \<open>count\<close>, \<open>saved\<close> and
  \<open>orig_indices\<close>. The list argument holds the frames still to be read; every call of
  \<^verbatim>\<open>cap.read()\<close> is counted, the last one (which reports the end) too.
\<close>

fun sample_loop ::
  "('img \<Rightarrow> nat \<times> nat) \<Rightarrow> ('img \<Rightarrow> int \<times> int \<Rightarrow> 'img) \<Rightarrow> nat \<Rightarrow> string \<Rightarrow> int \<Rightarrow>
   'img list \<Rightarrow> int \<Rightarrow> int \<Rightarrow> int list \<Rightarrow> 'img world \<Rightarrow>
   (error + int list \<times> int) \<times> 'img world" where
  "sample_loop shape cv_resize max_pixels folder step [] count saved idx w =
     (Inr (idx, saved), w\<lparr>cap_reads := Suc (cap_reads w)\<rparr>)"
| "sample_loop shape cv_resize max_pixels folder step (frame # rest) count saved idx w =
     (let w1 = w\<lparr>cap_reads := Suc (cap_reads w)\<rparr> in
      if count mod step = 0 then
        (case shrink shape cv_resize max_pixels frame of
           Inl e \<Rightarrow> (Inl e, w1)
         | Inr f \<Rightarrow>
             sample_loop shape cv_resize max_pixels folder step rest (count + 1) (saved + 1)
               (idx @ [count])
               (w1\<lparr>frame_files := (frame_files w1)((folder, saved) \<mapsto> f)\<rparr>))
      else sample_loop shape cv_resize max_pixels folder step rest (count + 1) saved idx w1)"

definition extract_frames ::
  "(string \<Rightarrow> 'img capture) \<Rightarrow> ('img \<Rightarrow> nat \<times> nat) \<Rightarrow> ('img \<Rightarrow> int \<times> int \<Rightarrow> 'img) \<Rightarrow>
   string \<Rightarrow> string \<Rightarrow> real \<Rightarrow> nat \<Rightarrow> 'img world \<Rightarrow>
   (error + real \<times> int \<times> int list) \<times> 'img world" where
  "extract_frames videos shape cv_resize video_path output_folder target_fps max_pixels w =
     (let w0 = w\<lparr>dirs := insert output_folder (dirs w)\<rparr> in
      case mapping_files w0 output_folder of
        Some data \<Rightarrow> (Inr (orig_fps data, frame_step data, orig_indices data), w0)
      | None \<Rightarrow>
          let cap = videos video_path;
              w1 = w0\<lparr>cap_opens := Suc (cap_opens w0)\<rparr>
          in
          if \<not> isOpened cap then (Inl IOError, w1)
          else
            let fps = (if cap_fps cap = 0 then target_fps else cap_fps cap) in
            if target_fps = 0 then (Inl ZeroDivisionError, w1)
            else
              let step = max (py_round (fps / target_fps)) 1 in
              case sample_loop shape cv_resize max_pixels output_folder step
                     (cap_frames cap) 0 0 [] w1 of
                (Inl e, w2) \<Rightarrow> (Inl e, w2)
              | (Inr (idx, saved), w2) \<Rightarrow>
                  (Inr (fps, step, idx),
                   w2\<lparr>mapping_files := (mapping_files w2)(output_folder \<mapsto>
                        \<lparr>orig_fps = fps, frame_step = step, orig_indices = idx\<rparr>)\<rparr>))"

text \<open>
  What a mapping must satisfy for its indices to be those of a constant-step sampler.
\<close>

definition good_mapping :: "frame_mapping \<Rightarrow> bool" where
  "good_mapping m =
     (1 \<le> frame_step m \<and> sorted_wrt (<) (orig_indices m) \<and>
      (\<forall>i<length (orig_indices m). orig_indices m ! i = int i * frame_step m))"

section \<open>Arrays\<close>

text \<open>
  A two-dimensional \<^verbatim>\<open>ndarray\<close>: its shape is \<open>(length (rows M), ncols M)\<close>, so an array of
  no rows still has a width. A one-dimensional array is a list.
\<close>

record matrix =
  ncols :: nat
  rows :: "real list list"

definition nrows :: "matrix \<Rightarrow> nat" where
  "nrows M = length (rows M)"

definition wf_matrix :: "matrix \<Rightarrow> bool" where
  "wf_matrix M = list_all (\<lambda>r. length r = ncols M) (rows M)"

text \<open>\<^verbatim>\<open>np.vstack\<close> of two-dimensional arrays, and of one-dimensional ones (each a row).\<close>

definition vstack :: "matrix list \<Rightarrow> error + matrix" where
  "vstack ms =
     (case ms of
        [] \<Rightarrow> Inl (ValueError NeedOneArray)
      | m # rest \<Rightarrow>
          if list_all (\<lambda>x. ncols x = ncols m) rest
          then Inr \<lparr>ncols = ncols m, rows = concat (map rows ms)\<rparr>
          else Inl (ValueError DimsMustMatch))"

definition vstack_vecs :: "real list list \<Rightarrow> error + matrix" where
  "vstack_vecs vs =
     (case vs of
        [] \<Rightarrow> Inl (ValueError NeedOneArray)
      | v # rest \<Rightarrow>
          if list_all (\<lambda>x. length x = length v) rest
          then Inr \<lparr>ncols = length v, rows = vs\<rparr>
          else Inl (ValueError DimsMustMatch))"

text \<open>\<^verbatim>\<open>np.mean(X, axis=0)\<close> and \<^verbatim>\<open>np.linalg.norm\<close> of a vector.\<close>

definition col_mean :: "matrix \<Rightarrow> real list" where
  "col_mean X = map (\<lambda>j. (\<Sum>r\<leftarrow>rows X. r ! j) / real (nrows X)) [0..<ncols X]"

definition l2norm :: "real list \<Rightarrow> real" where
  "l2norm v = sqrt (\<Sum>x\<leftarrow>v. x\<^sup>2)"

text \<open>
  \<^verbatim>\<open>np.argmax\<close>: the index of the first occurrence of the maximum. The scan keeps the best
  value and its index and replaces them only on a strictly greater entry.
\<close>

fun argmax_from :: "real list \<Rightarrow> nat \<Rightarrow> real \<Rightarrow> nat \<Rightarrow> nat" where
  "argmax_from [] i best bi = bi"
| "argmax_from (x # xs) i best bi =
     (if best < x then argmax_from xs (Suc i) x i else argmax_from xs (Suc i) best bi)"

definition np_argmax :: "real list \<Rightarrow> error + nat" where
  "np_argmax xs =
     (case xs of
        [] \<Rightarrow> Inl (ValueError EmptySequence)
      | x # rest \<Rightarrow> Inr (argmax_from rest 1 x 0))"

text \<open>
  \<^verbatim>\<open>xs[i]\<close> on a Python list: positions \<open>0 .. len - 1\<close> from the front, \<open>-len .. -1\<close> from the
  back, \<^verbatim>\<open>IndexError\<close> elsewhere.
\<close>

definition py_index :: "'a list \<Rightarrow> int \<Rightarrow> error + 'a" where
  "py_index xs i =
     (if 0 \<le> i \<and> i < int (length xs) then Inr (xs ! nat i)
      else if i < 0 \<and> - int (length xs) \<le> i then Inr (xs ! nat (int (length xs) + i))
      else Inl IndexError)"

section \<open>Dimensionality Reducer: scikit-learn's \<^verbatim>\<open>PCA\<close>\<close>

text \<open>
  \<^verbatim>\<open>PCA(n_components=pca_dim, whiten=True, svd_solver='auto').fit(stacked)\<close>. The library
  refuses more components than \<open>min(n_samples, n_features)\<close> with a \<^verbatim>\<open>ValueError\<close>; the
  decomposition itself (\<open>solve\<close>: mean, basis, whitening scale) is external, and so is
  \<^verbatim>\<open>transform\<close>. The theorems below take \<open>1 \<le> pca_dim\<close>, as the notebook does (64).
\<close>

record 'p pca =
  n_components :: nat
  fitted :: 'p

definition pca_fit :: "(nat \<Rightarrow> matrix \<Rightarrow> 'p) \<Rightarrow> nat \<Rightarrow> matrix \<Rightarrow> error + 'p pca" where
  "pca_fit solve n X =
     (if n \<le> min (nrows X) (ncols X)
      then Inr \<lparr>n_components = n, fitted = solve n X\<rparr>
      else Inl (ValueError BadNComponents))"

section \<open>Descriptor Extractor: \<^verbatim>\<open>compute_hof_for_frame\<close> and \<^verbatim>\<open>load_frame_descriptors\<close>\<close>

text \<open>
  \<open>flow_hist prev_gray gray num_bins\<close> is the histogram that \<^verbatim>\<open>np.histogram\<close> returns for
  the Farneback flow of the two frames (external); the function normalises it.
\<close>

definition compute_hof_for_frame ::
  "('img \<Rightarrow> 'img \<Rightarrow> nat \<Rightarrow> real list) \<Rightarrow> 'img \<Rightarrow> 'img \<Rightarrow> nat \<Rightarrow> real list" where
  "compute_hof_for_frame flow_hist prev_gray gray num_bins =
     (let hof = flow_hist prev_gray gray num_bins in
      if sum_list hof > 0 then map (\<lambda>x. x / sum_list hof) hof else hof)"

text \<open>
  First pass (only when \<open>fit_pca\<close>): the descriptors of the frames that have keypoints.
  \<open>detect\<close> is \<^verbatim>\<open>sift.detectAndCompute\<close>, which gives \<^verbatim>\<open>None\<close> for a frame without keypoints.
\<close>

definition collect_descs :: "('img \<Rightarrow> matrix option) \<Rightarrow> 'img list \<Rightarrow> matrix list" where
  "collect_descs detect frame_imgs = List.map_filter detect frame_imgs"

text \<open>
  Second pass, one frame: the concatenated vector before normalisation, the normalisation
  step, and the vector appended to \<open>all_descs\<close>.
\<close>

definition raw_frame_vec ::
  "('p pca \<Rightarrow> matrix \<Rightarrow> matrix) \<Rightarrow> ('img \<Rightarrow> matrix option) \<Rightarrow> ('img \<Rightarrow> 'img \<Rightarrow> nat \<Rightarrow> real list) \<Rightarrow>
   'p pca option \<Rightarrow> nat \<Rightarrow> nat \<Rightarrow> 'img option \<Rightarrow> 'img \<Rightarrow> real list" where
  "raw_frame_vec transform detect flow_hist pca_model pca_dim hof_bins prev_gray img =
     (let sift_vec =
            (case detect img of
               None \<Rightarrow> replicate pca_dim 0
             | Some des \<Rightarrow>
                 (case pca_model of
                    None \<Rightarrow> replicate pca_dim 0
                  | Some pm \<Rightarrow> col_mean (transform pm des)));
          hof_vec =
            (case prev_gray of
               Some pg \<Rightarrow> compute_hof_for_frame flow_hist pg img hof_bins
             | None \<Rightarrow> replicate hof_bins 0)
      in sift_vec @ hof_vec)"

definition normalize_vec :: "real list \<Rightarrow> real list" where
  "normalize_vec frame_vec =
     (let norm = l2norm frame_vec in
      if norm > 1 / 10 ^ 6 then map (\<lambda>x. x / norm) frame_vec else frame_vec)"

definition frame_vec ::
  "('p pca \<Rightarrow> matrix \<Rightarrow> matrix) \<Rightarrow> ('img \<Rightarrow> matrix option) \<Rightarrow> ('img \<Rightarrow> 'img \<Rightarrow> nat \<Rightarrow> real list) \<Rightarrow>
   'p pca option \<Rightarrow> nat \<Rightarrow> nat \<Rightarrow> 'img option \<Rightarrow> 'img \<Rightarrow> real list" where
  "frame_vec transform detect flow_hist pca_model pca_dim hof_bins prev_gray img =
     normalize_vec (raw_frame_vec transform detect flow_hist pca_model pca_dim hof_bins prev_gray img)"

fun frame_vecs ::
  "('p pca \<Rightarrow> matrix \<Rightarrow> matrix) \<Rightarrow> ('img \<Rightarrow> matrix option) \<Rightarrow> ('img \<Rightarrow> 'img \<Rightarrow> nat \<Rightarrow> real list) \<Rightarrow>
   'p pca option \<Rightarrow> nat \<Rightarrow> nat \<Rightarrow> 'img option \<Rightarrow> 'img list \<Rightarrow> real list list" where
  "frame_vecs transform detect flow_hist pca_model pca_dim hof_bins prev_gray [] = []"
| "frame_vecs transform detect flow_hist pca_model pca_dim hof_bins prev_gray (img # rest) =
     frame_vec transform detect flow_hist pca_model pca_dim hof_bins prev_gray img
       # frame_vecs transform detect flow_hist pca_model pca_dim hof_bins (Some img) rest"

text \<open>
  The model that the second pass applies: the one fitted in the first pass when \<open>fit_pca\<close>,
  the one passed in otherwise.
\<close>

definition model_in_use ::
  "(nat \<Rightarrow> matrix \<Rightarrow> 'p) \<Rightarrow> ('img \<Rightarrow> matrix option) \<Rightarrow> 'img list \<Rightarrow> 'p pca option \<Rightarrow> nat \<Rightarrow> bool \<Rightarrow>
   error + 'p pca option" where
  "model_in_use solve detect frame_imgs pca_model pca_dim fit_pca =
     (if fit_pca then
        (case vstack (collect_descs detect frame_imgs) of
           Inl e \<Rightarrow> Inl e
         | Inr stacked \<Rightarrow>
             (case pca_fit solve pca_dim stacked of
                Inl e \<Rightarrow> Inl e
              | Inr pm \<Rightarrow> Inr (Some pm)))
      else Inr pca_model)"

text \<open>
  \<open>frame_imgs\<close> are the images read from \<^verbatim>\<open>sorted(glob(frame_folder/frame_*.jpg))\<close>, in that
  order.
\<close>

definition load_frame_descriptors ::
  "(nat \<Rightarrow> matrix \<Rightarrow> 'p) \<Rightarrow> ('p pca \<Rightarrow> matrix \<Rightarrow> matrix) \<Rightarrow> ('img \<Rightarrow> matrix option) \<Rightarrow>
   ('img \<Rightarrow> 'img \<Rightarrow> nat \<Rightarrow> real list) \<Rightarrow> 'img list \<Rightarrow> 'p pca option \<Rightarrow> nat \<Rightarrow> bool \<Rightarrow> nat \<Rightarrow>
   error + matrix \<times> 'p pca option" where
  "load_frame_descriptors solve transform detect flow_hist frame_imgs pca_model pca_dim fit_pca
       hof_bins =
     (case model_in_use solve detect frame_imgs pca_model pca_dim fit_pca of
        Inl e \<Rightarrow> Inl e
      | Inr pm \<Rightarrow>
          (case vstack_vecs
                  (frame_vecs transform detect flow_hist pm pca_dim hof_bins None frame_imgs) of
             Inl e \<Rightarrow> Inl e
           | Inr all_descs \<Rightarrow> Inr (all_descs, pm)))"

section \<open>Correlation Engine: \<^verbatim>\<open>compute_cte_correlation\<close>\<close>

text \<open>
  The transform length \<^verbatim>\<open>1 << int(np.ceil(np.log2(max(Tq, Tr))))\<close>. With no frame at all the
  logarithm is \<open>-inf\<close> and \<^verbatim>\<open>int\<close> raises \<^verbatim>\<open>OverflowError\<close>.
\<close>

definition fft_len :: "nat \<Rightarrow> nat \<Rightarrow> error + nat" where
  "fft_len Tq Tr =
     (if max Tq Tr = 0 then Inl OverflowError
      else Inr (2 ^ nat \<lceil>log 2 (real (max Tq Tr))\<rceil>))"

text \<open>
  \<^verbatim>\<open>Q = np.zeros((N, D)); Q[:T] = desc\<close>: the rows of \<open>desc\<close>, then rows of zeros. The
  assignment broadcasts a source of width one over the \<open>D\<close> columns and refuses any other
  source whose width is not \<open>D\<close>.
\<close>

definition pad_time :: "nat \<Rightarrow> nat \<Rightarrow> real list list \<Rightarrow> real list list" where
  "pad_time N D xs = xs @ replicate (N - length xs) (replicate D 0)"

definition assign_rows :: "nat \<Rightarrow> matrix \<Rightarrow> error + real list list" where
  "assign_rows D src =
     (if ncols src = D then Inr (rows src)
      else if ncols src = 1 then Inr (map (\<lambda>r. replicate D (r ! 0)) (rows src))
      else Inl (ValueError CouldNotBroadcast))"

text \<open>
  \<^verbatim>\<open>np.fft.rfft(X, n=N, axis=0)\<close>: for each column the bins \<open>0..N div 2\<close> of its discrete
  Fourier transform. \<^verbatim>\<open>np.fft.irfft(a, n=N)\<close>: the inverse for a Hermitian spectrum given by
  its first \<open>N div 2 + 1\<close> bins; the imaginary parts of bin 0 and of the Nyquist bin play no
  part.
\<close>

definition rfft :: "nat \<Rightarrow> nat \<Rightarrow> real list list \<Rightarrow> complex list list" where
  "rfft N D X =
     map (\<lambda>k. map (\<lambda>d. \<Sum>t\<leftarrow>[0..<N].
                  of_real (X ! t ! d) * cis (- (2 * pi * real k * real t / real N)))
                [0..<D])
       [0..<N div 2 + 1]"

definition irfft :: "nat \<Rightarrow> complex list \<Rightarrow> real list" where
  "irfft N a =
     map (\<lambda>m. (Re (a ! 0)
               + (\<Sum>k\<leftarrow>[1..<(N + 1) div 2].
                    2 * Re (a ! k * cis (2 * pi * real k * real m / real N)))
               + (if even N then Re (a ! (N div 2)) * cos (pi * real m) else 0))
              / real N)
       [0..<N]"

definition cte_scores :: "nat \<Rightarrow> nat \<Rightarrow> real list list \<Rightarrow> real list list \<Rightarrow> real \<Rightarrow> real list" where
  "cte_scores N D Q R lambda_val =
     (let Qf = rfft N D Q;
          Rf = rfft N D R;
          num = map2 (\<lambda>q r. \<Sum>(a, b)\<leftarrow>zip q r. cnj a * b) Qf Rf;
          den = map (\<lambda>q. \<Sum>a\<leftarrow>q. (cmod a)\<^sup>2) Qf
      in irfft N (map2 (\<lambda>n d. n / of_real (d + lambda_val)) num den))"

definition compute_cte_correlation :: "matrix \<Rightarrow> matrix \<Rightarrow> real \<Rightarrow> error + real list" where
  "compute_cte_correlation query_desc ref_desc lambda_val =
     (let Tq = nrows query_desc; D = ncols query_desc; Tr = nrows ref_desc in
      case fft_len Tq Tr of
        Inl e \<Rightarrow> Inl e
      | Inr N \<Rightarrow>
          let Q = pad_time N D (rows query_desc) in
          (case assign_rows D ref_desc of
             Inl e \<Rightarrow> Inl e
           | Inr src \<Rightarrow> Inr (cte_scores N D Q (pad_time N D src) lambda_val)))"

section \<open>Alignment Orchestrator: the main loop\<close>

text \<open>
  The two calls of \<^verbatim>\<open>load_frame_descriptors\<close> for one pair. \<open>pca_model\<close> is the notebook's
  module-level variable: \<^verbatim>\<open>None\<close> before the first pair, and after a pair the model the
  query call returned.
\<close>

definition pair_descriptors ::
  "(nat \<Rightarrow> matrix \<Rightarrow> 'p) \<Rightarrow> ('p pca \<Rightarrow> matrix \<Rightarrow> matrix) \<Rightarrow> ('img \<Rightarrow> matrix option) \<Rightarrow>
   ('img \<Rightarrow> 'img \<Rightarrow> nat \<Rightarrow> real list) \<Rightarrow> 'img list \<Rightarrow> 'img list \<Rightarrow> 'p pca option \<Rightarrow>
   error + matrix \<times> matrix \<times> 'p pca option" where
  "pair_descriptors solve transform detect flow_hist q_imgs r_imgs pca_model =
     (case load_frame_descriptors solve transform detect flow_hist q_imgs pca_model 64
             (pca_model = None) 8 of
        Inl e \<Rightarrow> Inl e
      | Inr (q_desc, pca_model') \<Rightarrow>
          (case load_frame_descriptors solve transform detect flow_hist r_imgs pca_model' 64
                  True 8 of
             Inl e \<Rightarrow> Inl e
           | Inr (r_desc, _) \<Rightarrow> Inr (q_desc, r_desc, pca_model')))"

text \<open>
  Peak selection: the wrap-around correction and the clamp, then the lookup in the
  reference's mapping and the division by its frame rate.
\<close>

definition wrap_around :: "int \<Rightarrow> int \<Rightarrow> int" where
  "wrap_around N delta = (if delta > N div 2 then delta - N else delta)"

definition best_delta :: "real list \<Rightarrow> error + int" where
  "best_delta scores =
     (let N = int (length scores) in
      case np_argmax scores of
        Inl e \<Rightarrow> Inl e
      | Inr raw \<Rightarrow>
          let delta = int raw;
              delta = wrap_around N delta
          in Inr (max delta 0))"

definition match_pair :: "matrix \<Rightarrow> matrix \<Rightarrow> int list \<Rightarrow> real \<Rightarrow> error + int \<times> real" where
  "match_pair q_desc r_desc r_map r_fps =
     (case compute_cte_correlation q_desc r_desc (1 / 1000) of
        Inl e \<Rightarrow> Inl e
      | Inr scores \<Rightarrow>
          (case best_delta scores of
             Inl e \<Rightarrow> Inl e
           | Inr delta \<Rightarrow>
               (case py_index r_map delta of
                  Inl e \<Rightarrow> Inl e
                | Inr orig_frame \<Rightarrow>
                    if r_fps = 0 then Inl ZeroDivisionError
                    else Inr (orig_frame, real_of_int orig_frame / r_fps))))"

section \<open>Example inputs\<close>

text \<open>
  Concrete inputs on which the theorems below are exercised. Images are numbered; a world
  with no files, a capture of seven frames of 640 by 480 at 60 frames per second, a capture
  that does not open, and a world that already holds a mapping for one folder.
\<close>

definition empty_world :: "nat world" where
  "empty_world =
     \<lparr>dirs = {}, mapping_files = Map.empty, frame_files = Map.empty,
      cap_opens = 0, cap_reads = 0\<rparr>"

definition seven_frames :: "string \<Rightarrow> nat capture" where
  "seven_frames p = \<lparr>isOpened = True, cap_fps = 60, cap_frames = [10, 11, 12, 13, 14, 15, 16]\<rparr>"

definition no_video :: "string \<Rightarrow> nat capture" where
  "no_video p = \<lparr>isOpened = False, cap_fps = 0, cap_frames = []\<rparr>"

definition vga :: "nat \<Rightarrow> nat \<times> nat" where
  "vga f = (480, 640)"

definition keep_pixels :: "nat \<Rightarrow> int \<times> int \<Rightarrow> nat" where
  "keep_pixels f sz = f"

definition stored_mapping :: frame_mapping where
  "stored_mapping = \<lparr>orig_fps = 30, frame_step = 2, orig_indices = [0, 2, 4]\<rparr>"

definition mapped_world :: "nat world" where
  "mapped_world =
     \<lparr>dirs = {}, mapping_files = [''frames/reference/vid_1'' \<mapsto> stored_mapping],
      frame_files = Map.empty, cap_opens = 0, cap_reads = 0\<rparr>"

text \<open>
  Stand-ins for the external vision functions: a detector that finds two keypoints in every
  image but image 0, a flow histogram with all motion in the first bin, a decomposition that
  keeps the data it was fitted on, and a projection that drops nothing. The second detector
  gives 64 descriptors of width 64 per image, all equal to the image's number.
\<close>

definition two_keypoints :: "nat \<Rightarrow> matrix option" where
  "two_keypoints img = (if img = 0 then None else Some \<lparr>ncols = 2, rows = [[1, 0], [0, 1]]\<rparr>)"

definition first_bin :: "nat \<Rightarrow> nat \<Rightarrow> nat \<Rightarrow> real list" where
  "first_bin prev_gray gray num_bins = 1 # replicate (num_bins - 1) 0"

definition keep_data :: "nat \<Rightarrow> matrix \<Rightarrow> matrix" where
  "keep_data n X = X"

definition project_all :: "matrix pca \<Rightarrow> matrix \<Rightarrow> matrix" where
  "project_all pm X = X"

definition many_keypoints :: "nat \<Rightarrow> matrix option" where
  "many_keypoints img = Some \<lparr>ncols = 64, rows = replicate 64 (replicate 64 (real img))\<rparr>"

section \<open>Properties of the sampler\<close>

lemma sample_loop_Inr:
  "sample_loop sh rs mp folder step frames count saved idx w = (Inr (idx', saved'), w') \<Longrightarrow>
   idx' = idx @ filter (\<lambda>k. k mod step = 0) [count..count + int (length frames) - 1] \<and>
   saved' = saved + int (length (filter (\<lambda>k. k mod step = 0) [count..count + int (length frames) - 1])) \<and>
   cap_reads w' = cap_reads w + length frames + 1 \<and>
   cap_opens w' = cap_opens w \<and> dirs w' = dirs w \<and> mapping_files w' = mapping_files w"
proof (induction frames arbitrary: count saved idx w)
  case Nil
  then show ?case by auto
next
  case (Cons f rest)
  have up: "[count..count + int (length (f # rest)) - 1] = count # [count + 1..count + 1 + int (length rest) - 1]"
    by (simp add: upto_rec1 add.commute add.left_commute)
  show ?case
  proof (cases "count mod step = 0")
    case True
    with Cons.prems obtain g where g: "shrink sh rs mp f = Inr g"
      and rec: "sample_loop sh rs mp folder step rest (count + 1) (saved + 1) (idx @ [count])
         (w\<lparr>cap_reads := Suc (cap_reads w), frame_files := (frame_files w)((folder, saved) \<mapsto> g)\<rparr>) = (Inr (idx', saved'), w')"
      by (auto simp: Let_def split: sum.splits)
    from Cons.IH[OF rec] True show ?thesis unfolding up by simp
  next
    case False
    with Cons.prems have rec: "sample_loop sh rs mp folder step rest (count + 1) saved idx
         (w\<lparr>cap_reads := Suc (cap_reads w)\<rparr>) = (Inr (idx', saved'), w')"
      by (auto simp: Let_def)
    from Cons.IH[OF rec] False show ?thesis unfolding up by simp
  qed
qed

lemma sample_loop_files:
  "sample_loop sh rs mp folder step frames count saved idx w = (Inr (idx', saved'), w') \<Longrightarrow>
   (\<forall>s. saved \<le> s \<and> s < saved' \<longrightarrow> frame_files w' (folder, s) \<noteq> None) \<and>
   (\<forall>p s. (p \<noteq> folder \<or> s < saved \<or> saved' \<le> s) \<longrightarrow> frame_files w' (p, s) = frame_files w (p, s))"
proof (induction frames arbitrary: count saved idx w)
  case Nil
  then show ?case by auto
next
  case (Cons f rest)
  show ?case
  proof (cases "count mod step = 0")
    case True
    with Cons.prems obtain g where g: "shrink sh rs mp f = Inr g"
      and rec: "sample_loop sh rs mp folder step rest (count + 1) (saved + 1) (idx @ [count])
         (w\<lparr>cap_reads := Suc (cap_reads w), frame_files := (frame_files w)((folder, saved) \<mapsto> g)\<rparr>) = (Inr (idx', saved'), w')"
      by (auto simp: Let_def split: sum.splits)
    have le: "saved + 1 \<le> saved'" using sample_loop_Inr[OF rec] by simp
    from Cons.IH[OF rec] have
      A: "\<And>s. saved + 1 \<le> s \<Longrightarrow> s < saved' \<Longrightarrow> frame_files w' (folder, s) \<noteq> None"
      and B: "\<And>p s. (p \<noteq> folder \<or> s < saved + 1 \<or> saved' \<le> s) \<Longrightarrow>
          frame_files w' (p, s) = ((frame_files w)((folder, saved) \<mapsto> g)) (p, s)"
      by auto
    show ?thesis
    proof (intro conjI allI impI)
      fix s assume "saved \<le> s \<and> s < saved'"
      then show "frame_files w' (folder, s) \<noteq> None"
        using A[of s] B[of folder saved] by (cases "s = saved") auto
    next
      fix p s assume "p \<noteq> folder \<or> s < saved \<or> saved' \<le> s"
      then show "frame_files w' (p, s) = frame_files w (p, s)"
        using B[of p s] le by auto
    qed
  next
    case False
    with Cons.prems have rec: "sample_loop sh rs mp folder step rest (count + 1) saved idx
         (w\<lparr>cap_reads := Suc (cap_reads w)\<rparr>) = (Inr (idx', saved'), w')"
      by (auto simp: Let_def)
    from Cons.IH[OF rec] show ?thesis by simp
  qed
qed

lemma sample_loop_returns:
  "\<forall>f \<in> set frames. fst (sh f) * snd (sh f) \<noteq> 0 \<Longrightarrow>
   \<exists>r w'. sample_loop sh rs mp folder step frames count saved idx w = (Inr r, w')"
proof (induction frames arbitrary: count saved idx w)
  case Nil
  then show ?case by simp
next
  case (Cons f rest)
  then have "\<exists>g. shrink sh rs mp f = Inr g"
    by (auto simp: shrink_def Let_def split: prod.splits)
  then obtain g where g: "shrink sh rs mp f = Inr g" ..
  from Cons show ?case by (simp add: Let_def g)
qed


lemma multiple_between:
  fixes n s l :: int
  assumes "0 < s" "n mod s = 0" "(l - 1) * s < n" "n \<le> l * s"
  shows "n = l * s"
proof -
  from assms(2) have "s dvd n" by (simp add: mod_eq_0_iff_dvd)
  then obtain k where "n = s * k" by (rule dvdE)
  then have k: "n = k * s" by (simp add: mult.commute)
  from assms(3) k assms(1) have "l - 1 < k" by (simp add: mult_less_cancel_right)
  moreover from assms(4) k assms(1) have "k \<le> l" by (simp add: mult_le_cancel_right)
  ultimately have "k = l" by simp
  with k show ?thesis by simp
qed

lemma multiples_upto:
  fixes s :: int
  assumes "1 \<le> s"
  defines "L \<equiv> \<lambda>n. filter (\<lambda>k. k mod s = 0) [0..int n - 1]"
  shows "L n = map (\<lambda>i. int i * s) [0..<length (L n)] \<and>
         (int (length (L n)) - 1) * s < int n \<and> int n \<le> int (length (L n)) * s"
proof (induction n)
  case 0
  show ?case using assms by (simp add: L_def)
next
  case (Suc n)
  have up: "[0..int n] = [0..int n - 1] @ [int n]"
    by (simp add: upto_rec2)
  let ?l = "int (length (L n))"
  from Suc have ih1: "L n = map (\<lambda>i. int i * s) [0..<length (L n)]"
    and ih2: "(?l - 1) * s < int n" and ih3: "int n \<le> ?l * s" by auto
  show ?case
  proof (cases "int n mod s = 0")
    case True
    have n: "int n = ?l * s"
      using multiple_between[OF _ True ih2 ih3] assms(1) by simp
    have LS: "L (Suc n) = L n @ [int n]" using True by (simp add: L_def up)
    have "L (Suc n) = map (\<lambda>i. int i * s) [0..<length (L (Suc n))]"
      unfolding LS using ih1 n by simp
    moreover have "(int (length (L (Suc n))) - 1) * s < int (Suc n)"
      unfolding LS using n by simp
    moreover have "int (Suc n) \<le> int (length (L (Suc n))) * s"
      unfolding LS using n assms(1) by (simp add: algebra_simps)
    ultimately show ?thesis by blast
  next
    case False
    have LS: "L (Suc n) = L n" using False by (simp add: L_def up)
    have "int n \<noteq> ?l * s" using False by auto
    with ih3 have "int n < ?l * s" by simp
    then have "int (Suc n) \<le> ?l * s" by simp
    moreover have "(?l - 1) * s < int (Suc n)" using ih2 by simp
    ultimately show ?thesis unfolding LS using ih1 by simp
  qed
qed

lemma extract_frames_returns:
  assumes "mapping_files w folder = None" "isOpened (videos vp)" "target_fps \<noteq> 0"
    and "\<forall>f \<in> set (cap_frames (videos vp)). fst (sh f) * snd (sh f) \<noteq> 0"
  shows "\<exists>r w'. extract_frames videos sh rs vp folder target_fps mp w = (Inr r, w')"
proof -
  let ?fps = "if cap_fps (videos vp) = 0 then target_fps else cap_fps (videos vp)"
  let ?step = "max (py_round (?fps / target_fps)) 1"
  let ?w1 = "w\<lparr>dirs := insert folder (dirs w), cap_opens := Suc (cap_opens w)\<rparr>"
  from sample_loop_returns[OF assms(4), of rs mp folder ?step 0 0 "[]" ?w1]
  obtain r w' where "sample_loop sh rs mp folder ?step (cap_frames (videos vp)) 0 0 [] ?w1 = (Inr r, w')"
    by blast
  then show ?thesis using assms(1-3)
    by (cases r) (simp add: extract_frames_def Let_def)
qed

lemma extract_frames_fresh:
  assumes fresh: "mapping_files w folder = None"
    and run: "extract_frames videos sh rs vp folder target_fps mp w = (Inr (fps, step, idx), w')"
  shows "\<exists>saved w2.
           step = max (py_round (fps / target_fps)) 1 \<and>
           fps = (if cap_fps (videos vp) = 0 then target_fps else cap_fps (videos vp)) \<and>
           sample_loop sh rs mp folder step (cap_frames (videos vp)) 0 0 []
             (w\<lparr>dirs := insert folder (dirs w), cap_opens := Suc (cap_opens w)\<rparr>) = (Inr (idx, saved), w2) \<and>
           w' = w2\<lparr>mapping_files := (mapping_files w2)(folder \<mapsto>
                        \<lparr>orig_fps = fps, frame_step = step, orig_indices = idx\<rparr>)\<rparr>"
  using assms
  by (auto simp: extract_frames_def Let_def split: if_splits prod.splits sum.splits)

lemma sampler_fresh:
  assumes fresh: "mapping_files w folder = None"
    and run: "extract_frames videos sh rs vp folder target_fps mp w = (Inr (fps, step, idx), w')"
  shows "1 \<le> step \<and>
         idx = filter (\<lambda>k. k mod step = 0) [0..int (length (cap_frames (videos vp))) - 1] \<and>
         sorted_wrt (<) idx \<and>
         (\<forall>i<length idx. idx ! i = int i * step) \<and>
         mapping_files w' = (mapping_files w)(folder \<mapsto>
             \<lparr>orig_fps = fps, frame_step = step, orig_indices = idx\<rparr>) \<and>
         (\<forall>s. 0 \<le> s \<and> s < int (length idx) \<longrightarrow> frame_files w' (folder, s) \<noteq> None) \<and>
         (\<forall>s. int (length idx) \<le> s \<longrightarrow> frame_files w' (folder, s) = frame_files w (folder, s))"
proof -
  let ?n = "length (cap_frames (videos vp))"
  let ?w1 = "w\<lparr>dirs := insert folder (dirs w), cap_opens := Suc (cap_opens w)\<rparr>"
  from extract_frames_fresh[OF fresh run] obtain saved w2 where
    step: "step = max (py_round (fps / target_fps)) 1"
    and loop: "sample_loop sh rs mp folder step (cap_frames (videos vp)) 0 0 [] ?w1 = (Inr (idx, saved), w2)"
    and w': "w' = w2\<lparr>mapping_files := (mapping_files w2)(folder \<mapsto>
                        \<lparr>orig_fps = fps, frame_step = step, orig_indices = idx\<rparr>)\<rparr>"
    by blast
  have s1: "1 \<le> step" using step by simp
  from sample_loop_Inr[OF loop] have
    idx: "idx = filter (\<lambda>k. k mod step = 0) [0..int ?n - 1]"
    and saved: "saved = int (length idx)"
    and mf: "mapping_files w2 = mapping_files w" by simp_all
  have srt: "sorted_wrt (<) idx" unfolding idx by (intro sorted_wrt_filter) simp
  from multiples_upto[OF s1, of ?n] have "idx = map (\<lambda>i. int i * step) [0..<length idx]"
    using idx by simp
  then have nth: "\<forall>i<length idx. idx ! i = int i * step"
    by (metis add_0 length_map nth_map nth_upt length_upt diff_zero)
  from sample_loop_files[OF loop] saved have
    f1: "\<forall>s. 0 \<le> s \<and> s < int (length idx) \<longrightarrow> frame_files w2 (folder, s) \<noteq> None"
    and f2: "\<forall>s. int (length idx) \<le> s \<longrightarrow> frame_files w2 (folder, s) = frame_files w (folder, s)"
    by auto
  show ?thesis using s1 idx srt nth f1 f2 mf by (simp add: w')
qed

text \<open>
  Claim C4. When \<^verbatim>\<open>extract_frames\<close> returns a mapping: if it sampled the video (no mapping
  was stored yet for the output folder), the sampling step is at least 1, the frame of
  original index \<open>k\<close> is kept exactly when \<open>k mod step = 0\<close>, the indices are strictly
  increasing, the \<open>i\<close>-th one is \<open>i * step\<close>, the mapping written holds them, and their number
  is the number of frame files written: the files numbered below it exist and no other
  file of the folder is touched. And if every mapping stored before the call has a step of
  at least 1 and strictly increasing indices with the \<open>i\<close>-th equal to \<open>i * step\<close>, so has the
  mapping returned, sampled or loaded, and so has every mapping stored after the call.
\<close>

theorem sampler_indices:
  assumes run: "extract_frames videos sh rs vp folder target_fps mp w = (Inr (fps, step, idx), w')"
  shows "(mapping_files w folder = None \<longrightarrow>
           1 \<le> step \<and>
           idx = filter (\<lambda>k. k mod step = 0) [0..int (length (cap_frames (videos vp))) - 1] \<and>
           sorted_wrt (<) idx \<and>
           (\<forall>i<length idx. idx ! i = int i * step) \<and>
           mapping_files w' folder
             = Some \<lparr>orig_fps = fps, frame_step = step, orig_indices = idx\<rparr> \<and>
           (\<forall>s. 0 \<le> s \<and> s < int (length idx) \<longrightarrow> frame_files w' (folder, s) \<noteq> None) \<and>
           (\<forall>s. int (length idx) \<le> s \<longrightarrow>
                frame_files w' (folder, s) = frame_files w (folder, s))) \<and>
         ((\<forall>f m. mapping_files w f = Some m \<longrightarrow> good_mapping m) \<longrightarrow>
           good_mapping \<lparr>orig_fps = fps, frame_step = step, orig_indices = idx\<rparr> \<and>
           (\<forall>f m. mapping_files w' f = Some m \<longrightarrow> good_mapping m))"
proof (rule conjI; rule impI)
  assume fresh: "mapping_files w folder = None"
  note F = sampler_fresh[OF fresh run]
  from F have "mapping_files w' = (mapping_files w)(folder \<mapsto>
             \<lparr>orig_fps = fps, frame_step = step, orig_indices = idx\<rparr>)" by blast
  then have m: "mapping_files w' folder
             = Some \<lparr>orig_fps = fps, frame_step = step, orig_indices = idx\<rparr>" by simp
  from F m
  show "1 \<le> step \<and>
           idx = filter (\<lambda>k. k mod step = 0) [0..int (length (cap_frames (videos vp))) - 1] \<and>
           sorted_wrt (<) idx \<and>
           (\<forall>i<length idx. idx ! i = int i * step) \<and>
           mapping_files w' folder
             = Some \<lparr>orig_fps = fps, frame_step = step, orig_indices = idx\<rparr> \<and>
           (\<forall>s. 0 \<le> s \<and> s < int (length idx) \<longrightarrow> frame_files w' (folder, s) \<noteq> None) \<and>
           (\<forall>s. int (length idx) \<le> s \<longrightarrow>
                frame_files w' (folder, s) = frame_files w (folder, s))"
    by blast
next
  assume inv: "\<forall>f m. mapping_files w f = Some m \<longrightarrow> good_mapping m"
  show "good_mapping \<lparr>orig_fps = fps, frame_step = step, orig_indices = idx\<rparr> \<and>
           (\<forall>f m. mapping_files w' f = Some m \<longrightarrow> good_mapping m)"
  proof (cases "mapping_files w folder")
    case None
    from sampler_fresh[OF None run] have s1: "1 \<le> step" and srt: "sorted_wrt (<) idx"
      and nth: "\<forall>i<length idx. idx ! i = int i * step"
      and mf: "mapping_files w' = (mapping_files w)(folder \<mapsto>
             \<lparr>orig_fps = fps, frame_step = step, orig_indices = idx\<rparr>)"
      by blast+
    have g: "good_mapping \<lparr>orig_fps = fps, frame_step = step, orig_indices = idx\<rparr>"
      by (simp add: good_mapping_def s1 srt nth)
    from inv g show ?thesis unfolding mf by auto
  next
    case (Some d)
    with run have r: "fps = orig_fps d" "step = frame_step d" "idx = orig_indices d"
      and mf: "mapping_files w' = mapping_files w"
      by (auto simp: extract_frames_def)
    from inv Some have "good_mapping d" by blast
    then have "good_mapping \<lparr>orig_fps = fps, frame_step = step, orig_indices = idx\<rparr>"
      by (simp add: good_mapping_def r)
    with inv show ?thesis unfolding mf by blast
  qed
qed

text \<open>
  Claim C5. When a mapping is stored for the output folder, \<^verbatim>\<open>extract_frames\<close> returns it as
  it is and changes nothing but the directory set: no capture is constructed, no frame is
  read, no file is written. Hence after any call that returned, a second call for the same
  output folder, whatever its other arguments, returns the same mapping and leaves the
  world, its decoder counters included, as it was.
\<close>

theorem sampler_idempotent:
  "(mapping_files w folder = Some m \<longrightarrow>
      extract_frames videos sh rs vp folder target_fps mp w =
        (Inr (orig_fps m, frame_step m, orig_indices m), w\<lparr>dirs := insert folder (dirs w)\<rparr>)) \<and>
   (extract_frames videos sh rs vp folder target_fps mp w = (Inr r, w1) \<longrightarrow>
      extract_frames videos' sh' rs' vp' folder target_fps' mp' w1 = (Inr r, w1))"
proof (intro conjI impI)
  assume "mapping_files w folder = Some m"
  then show "extract_frames videos sh rs vp folder target_fps mp w =
        (Inr (orig_fps m, frame_step m, orig_indices m), w\<lparr>dirs := insert folder (dirs w)\<rparr>)"
    by (simp add: extract_frames_def)
next
  assume run: "extract_frames videos sh rs vp folder target_fps mp w = (Inr r, w1)"
  obtain fps step idx where r: "r = (fps, step, idx)" by (cases r) auto
  have "mapping_files w1 folder = Some \<lparr>orig_fps = fps, frame_step = step, orig_indices = idx\<rparr>
        \<and> folder \<in> dirs w1"
  proof (cases "mapping_files w folder")
    case None
    from extract_frames_fresh[OF None run[unfolded r]] obtain saved w2 where
      loop: "sample_loop sh rs mp folder step (cap_frames (videos vp)) 0 0 []
             (w\<lparr>dirs := insert folder (dirs w), cap_opens := Suc (cap_opens w)\<rparr>) = (Inr (idx, saved), w2)"
      and w': "w1 = w2\<lparr>mapping_files := (mapping_files w2)(folder \<mapsto>
                        \<lparr>orig_fps = fps, frame_step = step, orig_indices = idx\<rparr>)\<rparr>"
      by blast
    from sample_loop_Inr[OF loop] show ?thesis by (simp add: w')
  next
    case (Some d)
    with run r show ?thesis by (auto simp: extract_frames_def)
  qed
  then have m: "mapping_files w1 folder = Some \<lparr>orig_fps = fps, frame_step = step, orig_indices = idx\<rparr>"
    and d: "insert folder (dirs w1) = dirs w1" by auto
  show "extract_frames videos' sh' rs' vp' folder target_fps' mp' w1 = (Inr r, w1)"
    by (simp add: extract_frames_def m d r)
qed

lemma seven_frames_run:
  "fst (extract_frames seven_frames vga keep_pixels ''train/task1/01_query.mp4''
          ''frames/query/vid_1'' 20 180000 empty_world) = Inr (60, 3, [0, 3, 6]) \<and>
   cap_reads (snd (extract_frames seven_frames vga keep_pixels ''train/task1/01_query.mp4''
          ''frames/query/vid_1'' 20 180000 empty_world)) = 8"
  by (simp add: extract_frames_def py_round_def shrink_def Let_def empty_world_def
      seven_frames_def vga_def keep_pixels_def)

theorem sampler_indices_witness:
  "mapping_files empty_world ''frames/query/vid_1'' = None \<and>
   (\<exists>w'. extract_frames seven_frames vga keep_pixels ''train/task1/01_query.mp4''
          ''frames/query/vid_1'' 20 180000 empty_world = (Inr (60, 3, [0, 3, 6]), w') \<and>
      sorted_wrt (<) [0, 3, 6 :: int] \<and>
      mapping_files w' ''frames/query/vid_1'' =
        Some \<lparr>orig_fps = 60, frame_step = 3, orig_indices = [0, 3, 6]\<rparr> \<and>
      frame_files w' (''frames/query/vid_1'', 2) \<noteq> None) \<and>
   good_mapping stored_mapping \<and>
   extract_frames no_video vga keep_pixels ''train/task1/01_reference.mp4''
       ''frames/reference/vid_1'' 20 180000 mapped_world
     = (Inr (30, 2, [0, 2, 4]), mapped_world\<lparr>dirs := {''frames/reference/vid_1''}\<rparr>) \<and>
   good_mapping \<lparr>orig_fps = 30, frame_step = 2, orig_indices = [0, 2, 4]\<rparr>"
proof -
  let ?run = "extract_frames seven_frames vga keep_pixels ''train/task1/01_query.mp4''
          ''frames/query/vid_1'' 20 180000 empty_world"
  have fresh: "mapping_files empty_world ''frames/query/vid_1'' = None"
    by (simp add: empty_world_def)
  have run: "?run = (Inr (60, 3, [0, 3, 6]), snd ?run)"
    using seven_frames_run by (metis prod.collapse)
  from sampler_indices[OF run] fresh have T:
    "sorted_wrt (<) [0, 3, 6 :: int] \<and>
     mapping_files (snd ?run) ''frames/query/vid_1'' =
        Some \<lparr>orig_fps = 60, frame_step = 3, orig_indices = [0, 3, 6]\<rparr> \<and>
     (\<forall>s. 0 \<le> s \<and> s < int (length [0, 3, 6 :: int]) \<longrightarrow>
        frame_files (snd ?run) (''frames/query/vid_1'', s) \<noteq> None)"
    by blast
  have a: "sorted_wrt (<) [0, 3, 6 :: int]" using T by blast
  have b: "mapping_files (snd ?run) ''frames/query/vid_1'' =
        Some \<lparr>orig_fps = 60, frame_step = 3, orig_indices = [0, 3, 6]\<rparr>" using T by blast
  from T have "\<forall>s. 0 \<le> s \<and> s < int (length [0, 3, 6 :: int]) \<longrightarrow>
      frame_files (snd ?run) (''frames/query/vid_1'', s) \<noteq> None" by blast
  then have "0 \<le> (2::int) \<and> 2 < int (length [0, 3, 6 :: int]) \<longrightarrow>
      frame_files (snd ?run) (''frames/query/vid_1'', 2) \<noteq> None" by (rule spec)
  then have c: "frame_files (snd ?run) (''frames/query/vid_1'', 2) \<noteq> None" by simp
  from run a b c have ex: "\<exists>w'. ?run = (Inr (60, 3, [0, 3, 6]), w') \<and>
      sorted_wrt (<) [0, 3, 6 :: int] \<and>
      mapping_files w' ''frames/query/vid_1'' =
        Some \<lparr>orig_fps = 60, frame_step = 3, orig_indices = [0, 3, 6]\<rparr> \<and>
      frame_files w' (''frames/query/vid_1'', 2) \<noteq> None"
    by (intro exI[of _ "snd ?run"] conjI)
  have gs: "good_mapping stored_mapping"
    by (simp add: good_mapping_def stored_mapping_def less_Suc_eq numeral_3_eq_3)
  have inv: "\<forall>f m. mapping_files mapped_world f = Some m \<longrightarrow> good_mapping m"
    using gs by (simp add: mapped_world_def)
  have loaded: "extract_frames no_video vga keep_pixels ''train/task1/01_reference.mp4''
       ''frames/reference/vid_1'' 20 180000 mapped_world
     = (Inr (30, 2, [0, 2, 4]), mapped_world\<lparr>dirs := {''frames/reference/vid_1''}\<rparr>)"
    by (simp add: extract_frames_def mapped_world_def stored_mapping_def)
  from sampler_indices[OF loaded] inv
  have g: "good_mapping \<lparr>orig_fps = 30, frame_step = 2, orig_indices = [0, 2, 4]\<rparr>" by blast
  show ?thesis by (intro conjI fresh ex gs loaded g)
qed

theorem sampler_idempotent_witness:
  "mapping_files mapped_world ''frames/reference/vid_1'' = Some stored_mapping \<and>
   extract_frames no_video vga keep_pixels ''train/task1/01_reference.mp4''
       ''frames/reference/vid_1'' 20 180000 mapped_world
     = (Inr (30, 2, [0, 2, 4]), mapped_world\<lparr>dirs := {''frames/reference/vid_1''}\<rparr>) \<and>
   (\<exists>w1. extract_frames seven_frames vga keep_pixels ''train/task1/01_query.mp4''
          ''frames/query/vid_1'' 20 180000 empty_world = (Inr (60, 3, [0, 3, 6]), w1) \<and>
      extract_frames no_video vga keep_pixels ''train/task1/01_query.mp4''
          ''frames/query/vid_1'' 15 120000 w1 = (Inr (60, 3, [0, 3, 6]), w1) \<and>
      cap_reads w1 = 8)"
proof -
  let ?run = "extract_frames seven_frames vga keep_pixels ''train/task1/01_query.mp4''
          ''frames/query/vid_1'' 20 180000 empty_world"
  have has: "mapping_files mapped_world ''frames/reference/vid_1'' = Some stored_mapping"
    by (simp add: mapped_world_def)
  have run: "?run = (Inr (60, 3, [0, 3, 6]), snd ?run)"
    using seven_frames_run by (metis prod.collapse)
  have reads: "cap_reads (snd ?run) = 8" using seven_frames_run by blast
  from sampler_idempotent[of mapped_world "''frames/reference/vid_1''" stored_mapping
      no_video vga keep_pixels "''train/task1/01_reference.mp4''" 20 180000] has
  have first: "extract_frames no_video vga keep_pixels ''train/task1/01_reference.mp4''
       ''frames/reference/vid_1'' 20 180000 mapped_world
     = (Inr (30, 2, [0, 2, 4]), mapped_world\<lparr>dirs := {''frames/reference/vid_1''}\<rparr>)"
    by (simp add: stored_mapping_def mapped_world_def)
  from sampler_idempotent[of empty_world "''frames/query/vid_1''" _ seven_frames vga keep_pixels
      "''train/task1/01_query.mp4''" 20 180000 "(60, 3, [0, 3, 6])" "snd ?run"
      no_video vga keep_pixels "''train/task1/01_query.mp4''" 15 120000] run
  have second: "extract_frames no_video vga keep_pixels ''train/task1/01_query.mp4''
          ''frames/query/vid_1'' 15 120000 (snd ?run) = (Inr (60, 3, [0, 3, 6]), snd ?run)"
    by blast
  from run second reads have ex: "\<exists>w1. ?run = (Inr (60, 3, [0, 3, 6]), w1) \<and>
      extract_frames no_video vga keep_pixels ''train/task1/01_query.mp4''
          ''frames/query/vid_1'' 15 120000 w1 = (Inr (60, 3, [0, 3, 6]), w1) \<and>
      cap_reads w1 = 8"
    by (intro exI[of _ "snd ?run"] conjI)
  show ?thesis by (intro conjI has first ex)
qed

section \<open>Properties of peak selection\<close>

lemma argmax_from_spec:
  assumes "bi < i" "bi < length pre" "length pre = i" "pre ! bi = best"
    "\<forall>j<i. pre ! j \<le> best" "\<forall>j<bi. pre ! j < best"
  shows "argmax_from xs i best bi < length (pre @ xs) \<and>
         (\<forall>j<length (pre @ xs). (pre @ xs) ! j \<le> (pre @ xs) ! argmax_from xs i best bi) \<and>
         (\<forall>j<argmax_from xs i best bi. (pre @ xs) ! j < (pre @ xs) ! argmax_from xs i best bi)"
  using assms
proof (induction xs arbitrary: i best bi pre)
  case Nil
  then show ?case by auto
next
  case (Cons x xs)
  show ?case
  proof (cases "best < x")
    case True
    have "argmax_from xs (Suc i) x i < length ((pre @ [x]) @ xs) \<and>
         (\<forall>j<length ((pre @ [x]) @ xs). ((pre @ [x]) @ xs) ! j \<le> ((pre @ [x]) @ xs) ! argmax_from xs (Suc i) x i) \<and>
         (\<forall>j<argmax_from xs (Suc i) x i. ((pre @ [x]) @ xs) ! j < ((pre @ [x]) @ xs) ! argmax_from xs (Suc i) x i)"
    proof (rule Cons.IH)
      show "i < Suc i" by simp
      show "i < length (pre @ [x])" using Cons.prems by simp
      show "length (pre @ [x]) = Suc i" using Cons.prems by simp
      show "(pre @ [x]) ! i = x" using Cons.prems by (simp add: nth_append)
      show "\<forall>j<Suc i. (pre @ [x]) ! j \<le> x"
        using Cons.prems True by (auto simp: nth_append less_Suc_eq intro: less_imp_le order_trans)
      show "\<forall>j<i. (pre @ [x]) ! j < x"
        using Cons.prems True by (auto simp: nth_append intro: le_less_trans)
    qed
    with True show ?thesis by simp
  next
    case False
    have "argmax_from xs (Suc i) best bi < length ((pre @ [x]) @ xs) \<and>
         (\<forall>j<length ((pre @ [x]) @ xs). ((pre @ [x]) @ xs) ! j \<le> ((pre @ [x]) @ xs) ! argmax_from xs (Suc i) best bi) \<and>
         (\<forall>j<argmax_from xs (Suc i) best bi. ((pre @ [x]) @ xs) ! j < ((pre @ [x]) @ xs) ! argmax_from xs (Suc i) best bi)"
    proof (rule Cons.IH)
      show "bi < Suc i" using Cons.prems by simp
      show "bi < length (pre @ [x])" using Cons.prems by simp
      show "length (pre @ [x]) = Suc i" using Cons.prems by simp
      show "(pre @ [x]) ! bi = best" using Cons.prems by (simp add: nth_append)
      show "\<forall>j<Suc i. (pre @ [x]) ! j \<le> best"
        using Cons.prems False by (auto simp: nth_append less_Suc_eq)
      show "\<forall>j<bi. (pre @ [x]) ! j < best"
        using Cons.prems by (auto simp: nth_append)
    qed
    with False show ?thesis by simp
  qed
qed

lemma np_argmax_spec:
  assumes "xs \<noteq> []"
  shows "\<exists>i. np_argmax xs = Inr i \<and> i < length xs \<and>
         (\<forall>j<length xs. xs ! j \<le> xs ! i) \<and> (\<forall>j<i. xs ! j < xs ! i)"
proof -
  from assms obtain x rest where xs: "xs = x # rest" by (cases xs) auto
  have "argmax_from rest 1 x 0 < length ([x] @ rest) \<and>
         (\<forall>j<length ([x] @ rest). ([x] @ rest) ! j \<le> ([x] @ rest) ! argmax_from rest 1 x 0) \<and>
         (\<forall>j<argmax_from rest 1 x 0. ([x] @ rest) ! j < ([x] @ rest) ! argmax_from rest 1 x 0)"
    by (rule argmax_from_spec) auto
  then show ?thesis by (simp add: xs np_argmax_def)
qed

lemma np_argmax_first:
  assumes "xs \<noteq> []" "\<forall>j<length xs. xs ! j \<le> xs ! 0"
  shows "np_argmax xs = Inr 0"
proof -
  from np_argmax_spec[OF assms(1)] obtain i where i: "np_argmax xs = Inr i"
    and le: "\<forall>j<length xs. xs ! j \<le> xs ! i" and lt: "\<forall>j<i. xs ! j < xs ! i" and il: "i < length xs"
    by blast
  have "i = 0"
  proof (rule ccontr)
    assume "i \<noteq> 0"
    then have "xs ! 0 < xs ! i" using lt by simp
    moreover have "xs ! i \<le> xs ! 0" using assms(2) il by simp
    ultimately show False by simp
  qed
  with i show ?thesis by simp
qed

lemma argmax_from_last:
  "b < x \<Longrightarrow> argmax_from (replicate n b @ [x]) i b bi = i + n"
  by (induction n arbitrary: i) auto

lemma np_argmax_last:
  "0 < n \<Longrightarrow> np_argmax (replicate n 0 @ [1]) = Inr n"
  using argmax_from_last[of 0 1 "n - 1" 1 0] by (cases n) (simp_all add: np_argmax_def)

lemma best_delta_bounds:
  assumes "best_delta scores = Inr d"
  shows "0 \<le> d \<and> d \<le> int (length scores) div 2"
proof -
  from assms have ne: "scores \<noteq> []"
    by (auto simp: best_delta_def np_argmax_def)
  from np_argmax_spec[OF ne] obtain i where i: "np_argmax scores = Inr i" and il: "i < length scores"
    by blast
  from assms i have "d = max (wrap_around (int (length scores)) (int i)) 0"
    by (simp add: best_delta_def Let_def)
  with il show ?thesis by (auto simp: wrap_around_def)
qed

text \<open>
  Claim C3. \<^verbatim>\<open>np.argmax\<close> of a non-empty score sequence returns an index of a greatest score,
  and the offset the main loop goes on with is that raw argmax, less \<open>N\<close> when it exceeds
  \<open>N / 2\<close>, then the maximum of that and 0; it is never negative. For \<open>N = 1024\<close> and a raw
  argmax of 1023 the corrected offset is \<open>-1\<close> and the clamped one 0. The lookup in the
  reference's mapping uses the clamped offset: when the pair yields a result, the frame
  reported is the mapping's entry at that offset.
\<close>

theorem peak_selection:
  "(scores \<noteq> [] \<longrightarrow>
      (\<exists>raw. np_argmax scores = Inr raw \<and> raw < length scores \<and>
         (\<forall>j<length scores. scores ! j \<le> scores ! raw) \<and>
         best_delta scores =
           Inr (max (if real raw > real (length scores) / 2
                     then int raw - int (length scores) else int raw) 0))) \<and>
   (best_delta scores = Inr delta \<longrightarrow> 0 \<le> delta) \<and>
   (length scores = 1024 \<and> np_argmax scores = Inr 1023 \<longrightarrow>
      wrap_around (int (length scores)) 1023 = - 1 \<and> best_delta scores = Inr 0) \<and>
   (compute_cte_correlation q_desc r_desc (1 / 1000) = Inr scores \<and>
    match_pair q_desc r_desc r_map r_fps = Inr (orig_frame, orig_time) \<longrightarrow>
      (\<exists>d. best_delta scores = Inr d \<and> 0 \<le> d \<and> d < int (length r_map) \<and>
           orig_frame = r_map ! nat d))"
proof -
  have A: "scores \<noteq> [] \<longrightarrow>
      (\<exists>raw. np_argmax scores = Inr raw \<and> raw < length scores \<and>
         (\<forall>j<length scores. scores ! j \<le> scores ! raw) \<and>
         best_delta scores =
           Inr (max (if real raw > real (length scores) / 2
                     then int raw - int (length scores) else int raw) 0))"
  proof
    assume "scores \<noteq> []"
    from np_argmax_spec[OF this] obtain raw where raw: "np_argmax scores = Inr raw"
      and rl: "raw < length scores" and mx: "\<forall>j<length scores. scores ! j \<le> scores ! raw"
      by blast
    have half: "(real raw > real (length scores) / 2) = (int raw > int (length scores) div 2)"
      by linarith
    have "best_delta scores =
           Inr (max (if real raw > real (length scores) / 2
                     then int raw - int (length scores) else int raw) 0)"
      unfolding half by (simp add: best_delta_def wrap_around_def Let_def raw)
    with raw rl mx show "\<exists>raw. np_argmax scores = Inr raw \<and> raw < length scores \<and>
         (\<forall>j<length scores. scores ! j \<le> scores ! raw) \<and>
         best_delta scores =
           Inr (max (if real raw > real (length scores) / 2
                     then int raw - int (length scores) else int raw) 0)"
      by blast
  qed
  have B: "best_delta scores = Inr delta \<longrightarrow> 0 \<le> delta"
    using best_delta_bounds by blast
  have C: "length scores = 1024 \<and> np_argmax scores = Inr 1023 \<longrightarrow>
      wrap_around (int (length scores)) 1023 = - 1 \<and> best_delta scores = Inr 0"
    by (simp add: best_delta_def wrap_around_def Let_def)
  have D: "compute_cte_correlation q_desc r_desc (1 / 1000) = Inr scores \<and>
    match_pair q_desc r_desc r_map r_fps = Inr (orig_frame, orig_time) \<longrightarrow>
      (\<exists>d. best_delta scores = Inr d \<and> 0 \<le> d \<and> d < int (length r_map) \<and>
           orig_frame = r_map ! nat d)"
  proof
    assume h: "compute_cte_correlation q_desc r_desc (1 / 1000) = Inr scores \<and>
      match_pair q_desc r_desc r_map r_fps = Inr (orig_frame, orig_time)"
    then obtain d where d: "best_delta scores = Inr d"
      and ix: "py_index r_map d = Inr orig_frame"
      by (auto simp: match_pair_def split: sum.splits if_splits)
    from best_delta_bounds[OF d] have d0: "0 \<le> d" by simp
    with ix have "d < int (length r_map) \<and> orig_frame = r_map ! nat d"
      by (auto simp: py_index_def split: if_splits)
    with d d0 show "\<exists>d. best_delta scores = Inr d \<and> 0 \<le> d \<and> d < int (length r_map) \<and>
           orig_frame = r_map ! nat d" by blast
  qed
  from A B C D show ?thesis by blast
qed

section \<open>Properties of the correlation engine\<close>

lemma fft_len_eq:
  "0 < max Tq Tr \<Longrightarrow> fft_len Tq Tr = Inr (2 ^ ceillog2 (max Tq Tr))"
  by (auto simp: fft_len_def ceillog2_def max_def)

lemma one_frame_scores:
  "compute_cte_correlation \<lparr>ncols = 1, rows = [[1]]\<rparr> \<lparr>ncols = 1, rows = [[1]]\<rparr> (1 / 1000)
     = Inr [1000 / 1001]"
  by (simp add: compute_cte_correlation_def nrows_def fft_len_def assign_rows_def pad_time_def
      cte_scores_def rfft_def irfft_def Let_def)

lemma broadcast_scores:
  "compute_cte_correlation \<lparr>ncols = 2, rows = [[1, 2]]\<rparr> \<lparr>ncols = 1, rows = [[5]]\<rparr> (1 / 1000)
     = Inr [15000 / 5001]"
  by (simp add: compute_cte_correlation_def nrows_def fft_len_def assign_rows_def pad_time_def
      cte_scores_def rfft_def irfft_def Let_def numeral_2_eq_2)

lemma upt_two: "[0..<2] = [0, 1]" by (simp add: numeral_2_eq_2)

lemma late_match_scores:
  "compute_cte_correlation \<lparr>ncols = 2, rows = [[1, 0], [0, 1]]\<rparr> \<lparr>ncols = 2, rows = [[0, 1]]\<rparr> (1 / 1000)
     = Inr [0, 1000 / 2001]"
  by (simp add: compute_cte_correlation_def nrows_def fft_len_def assign_rows_def pad_time_def
      cte_scores_def rfft_def irfft_def Let_def upt_two cis_cnj[symmetric])

lemma fft_len_spec:
  assumes "0 < max Tq Tr"
  shows "\<exists>N. fft_len Tq Tr = Inr N \<and> (\<exists>k. N = 2 ^ k) \<and> max Tq Tr \<le> N \<and>
             (\<forall>j. max Tq Tr \<le> 2 ^ j \<longrightarrow> N \<le> 2 ^ j)"
proof -
  let ?m = "max Tq Tr"
  have "\<forall>j. ?m \<le> 2 ^ j \<longrightarrow> (2::nat) ^ ceillog2 ?m \<le> 2 ^ j"
    using ceillog2_le_iff[OF assms] by (simp add: power_increasing)
  moreover have "?m \<le> 2 ^ ceillog2 ?m" by (rule le_two_power_ceillog2)
  ultimately show ?thesis using fft_len_eq[OF assms] by blast
qed

lemma length_cte_scores: "length (cte_scores N D Q R l) = N"
  by (simp add: cte_scores_def irfft_def Let_def)

lemma pad_time_props:
  "length xs \<le> N \<Longrightarrow>
     length (pad_time N D xs) = N \<and> take (length xs) (pad_time N D xs) = xs \<and>
     drop (length xs) (pad_time N D xs) = replicate (N - length xs) (replicate D 0)"
  by (simp add: pad_time_def)

lemma self_inner:
  "(\<Sum>(a, b)\<leftarrow>zip q q. cnj a * b) = complex_of_real (\<Sum>a\<leftarrow>q. (cmod a)\<^sup>2)"
proof (induction q)
  case Nil
  show ?case by simp
next
  case (Cons z q)
  have "cnj z * z = complex_of_real ((cmod z)\<^sup>2)"
    using complex_norm_square[of z] by (simp only: mult.commute)
  with Cons show ?case by simp
qed

lemma sum_squares_nonneg: "0 \<le> (\<Sum>a\<leftarrow>q. (cmod a)\<^sup>2)"
  by (induction q) auto

lemma self_ratio:
  "map2 (\<lambda>n d. n / complex_of_real (d + l))
        (map2 (\<lambda>q r. \<Sum>(a, b)\<leftarrow>zip q r. cnj a * b) Qf Qf)
        (map (\<lambda>q. \<Sum>a\<leftarrow>q. (cmod a)\<^sup>2) Qf)
   = map complex_of_real (map (\<lambda>q. (\<Sum>a\<leftarrow>q. (cmod a)\<^sup>2) / ((\<Sum>a\<leftarrow>q. (cmod a)\<^sup>2) + l)) Qf)"
  by (induction Qf) (simp_all add: self_inner)

lemma irfft_nth:
  "m < N \<Longrightarrow> irfft N a ! m =
     (Re (a ! 0)
      + (\<Sum>k\<leftarrow>[1..<(N + 1) div 2]. 2 * Re (a ! k * cis (2 * pi * real k * real m / real N)))
      + (if even N then Re (a ! (N div 2)) * cos (pi * real m) else 0)) / real N"
  by (simp only: irfft_def nth_map length_upt diff_zero nth_upt add_0)

lemma irfft_peak:
  assumes len: "length xs = N div 2 + 1" and pos: "\<forall>x\<in>set xs. 0 \<le> x" and m: "m < N"
  shows "irfft N (map complex_of_real xs) ! m \<le> irfft N (map complex_of_real xs) ! 0"
proof -
  let ?a = "map complex_of_real xs"
  let ?ks = "[1..<(N + 1) div 2]"
  have N: "0 < N" using m by simp
  have inr: "\<And>k. k \<in> set ?ks \<Longrightarrow> k < length xs" using len by auto
  have t2: "(\<Sum>k\<leftarrow>?ks. 2 * Re (?a ! k * cis (2 * pi * real k * real m / real N)))
          \<le> (\<Sum>k\<leftarrow>?ks. 2 * Re (?a ! k * cis (2 * pi * real k * real 0 / real N)))"
  proof (rule sum_list_mono)
    fix k assume k: "k \<in> set ?ks"
    then have kl: "k < length xs" by (rule inr)
    then have "0 \<le> xs ! k" using pos by simp
    then have "xs ! k * cos (2 * pi * real k * real m / real N) \<le> xs ! k"
      by (simp add: mult_left_le)
    then show "2 * Re (?a ! k * cis (2 * pi * real k * real m / real N))
          \<le> 2 * Re (?a ! k * cis (2 * pi * real k * real 0 / real N))"
      using kl by simp
  qed
  have hl: "N div 2 < length xs" using len by simp
  then have "0 \<le> xs ! (N div 2)" using pos by simp
  then have "xs ! (N div 2) * cos (pi * real m) \<le> xs ! (N div 2) * 1"
    by (intro mult_left_mono cos_le_one)
  then have "xs ! (N div 2) * cos (pi * real m) \<le> xs ! (N div 2)"
    by (simp only: mult_1_right)
  then have t3: "(if even N then Re (?a ! (N div 2)) * cos (pi * real m) else 0)
          \<le> (if even N then Re (?a ! (N div 2)) * cos (pi * real 0) else 0)"
    using hl by simp
  have "(Re (?a ! 0) + (\<Sum>k\<leftarrow>?ks. 2 * Re (?a ! k * cis (2 * pi * real k * real m / real N)))
          + (if even N then Re (?a ! (N div 2)) * cos (pi * real m) else 0)) / real N
      \<le> (Re (?a ! 0) + (\<Sum>k\<leftarrow>?ks. 2 * Re (?a ! k * cis (2 * pi * real k * real 0 / real N)))
          + (if even N then Re (?a ! (N div 2)) * cos (pi * real 0) else 0)) / real N"
    by (intro divide_right_mono add_mono t2 t3) simp_all
  then show ?thesis unfolding irfft_nth[OF m] irfft_nth[OF N] .
qed

lemma cte_scores_self_peak:
  assumes "0 < l" "m < N"
  shows "cte_scores N D Q Q l ! m \<le> cte_scores N D Q Q l ! 0"
proof -
  let ?Qf = "rfft N D Q"
  let ?xs = "map (\<lambda>q. (\<Sum>a\<leftarrow>q. (cmod a)\<^sup>2) / ((\<Sum>a\<leftarrow>q. (cmod a)\<^sup>2) + l)) ?Qf"
  have sc: "cte_scores N D Q Q l = irfft N (map complex_of_real ?xs)"
    unfolding cte_scores_def Let_def self_ratio ..
  have len: "length ?xs = N div 2 + 1" by (simp add: rfft_def)
  have pos: "\<forall>x\<in>set ?xs. 0 \<le> x"
    using assms(1) sum_squares_nonneg by (auto intro!: divide_nonneg_pos add_nonneg_pos)
  show ?thesis unfolding sc by (rule irfft_peak[OF len pos assms(2)])
qed

lemma self_scores_peak:
  assumes "rows M \<noteq> []" and "0 < lambda_val"
  shows "\<exists>scores. compute_cte_correlation M M lambda_val = Inr scores \<and>
           scores \<noteq> [] \<and>
           (\<forall>m<length scores. scores ! m \<le> scores ! 0) \<and>
           np_argmax scores = Inr 0 \<and> best_delta scores = Inr 0"
proof -
  have pos: "0 < max (nrows M) (nrows M)" using assms(1) by (simp add: nrows_def)
  from fft_len_spec[OF pos] obtain N where N: "fft_len (nrows M) (nrows M) = Inr N"
    and ge: "max (nrows M) (nrows M) \<le> N" by blast
  let ?Q = "pad_time N (ncols M) (rows M)"
  let ?s = "cte_scores N (ncols M) ?Q ?Q lambda_val"
  have run: "compute_cte_correlation M M lambda_val = Inr ?s"
    by (simp add: compute_cte_correlation_def Let_def N assign_rows_def)
  have len: "length ?s = N" by (rule length_cte_scores)
  have N0: "0 < N" using pos ge by simp
  then have ne: "?s \<noteq> []" using len by auto
  have peak: "\<forall>m<length ?s. ?s ! m \<le> ?s ! 0"
    using cte_scores_self_peak[OF assms(2)] len by simp
  have am: "np_argmax ?s = Inr 0" by (rule np_argmax_first[OF ne peak])
  have "best_delta ?s = Inr 0" by (simp add: best_delta_def wrap_around_def Let_def am len)
  with run ne peak am show ?thesis by blast
qed

text \<open>
  Claim C6. In exact arithmetic, for a descriptor matrix of at least one frame, correlated
  with itself under a positive regularisation constant, \<^verbatim>\<open>compute_cte_correlation\<close> returns scores none of which
  exceeds the score at offset 0; \<^verbatim>\<open>np.argmax\<close> of them is 0, and so is the offset the main
  loop derives. With the main loop's constant, a mapping that is not empty and a frame rate
  that is not 0, the pair is matched at the mapping's first entry.
\<close>

theorem self_correlation_peak:
  assumes "rows M \<noteq> []" and "0 < lambda_val"
  shows "(\<exists>scores. compute_cte_correlation M M lambda_val = Inr scores \<and>
           scores \<noteq> [] \<and>
           (\<forall>m<length scores. scores ! m \<le> scores ! 0) \<and>
           np_argmax scores = Inr 0 \<and> best_delta scores = Inr 0) \<and>
         (r_map \<noteq> [] \<and> r_fps \<noteq> 0 \<longrightarrow>
            match_pair M M r_map r_fps = Inr (r_map ! 0, real_of_int (r_map ! 0) / r_fps))"
proof (rule conjI)
  show "\<exists>scores. compute_cte_correlation M M lambda_val = Inr scores \<and>
           scores \<noteq> [] \<and>
           (\<forall>m<length scores. scores ! m \<le> scores ! 0) \<and>
           np_argmax scores = Inr 0 \<and> best_delta scores = Inr 0"
    by (rule self_scores_peak[OF assms])
next
  have l: "(0 :: real) < 1 / 1000" by simp
  from self_scores_peak[OF assms(1) l] obtain scores where
    run: "compute_cte_correlation M M (1 / 1000) = Inr scores"
    and bd: "best_delta scores = Inr 0" by blast
  show "r_map \<noteq> [] \<and> r_fps \<noteq> 0 \<longrightarrow>
            match_pair M M r_map r_fps = Inr (r_map ! 0, real_of_int (r_map ! 0) / r_fps)"
    by (simp add: match_pair_def run bd py_index_def)
qed

lemma one_frame_delta: "best_delta [1000 / 1001] = Inr 0"
  by (simp add: best_delta_def np_argmax_def wrap_around_def)

lemma one_frame_match:
  "match_pair \<lparr>ncols = 1, rows = [[1]]\<rparr> \<lparr>ncols = 1, rows = [[1]]\<rparr> [0] 30 = Inr (0, 0)"
  unfolding match_pair_def one_frame_scores
  by (simp add: one_frame_delta py_index_def)

theorem peak_selection_witness:
  "replicate 1023 0 @ [1 :: real] \<noteq> [] \<and>
   length (replicate 1023 0 @ [1 :: real]) = 1024 \<and>
   np_argmax (replicate 1023 0 @ [1]) = Inr 1023 \<and>
   wrap_around (int (length (replicate 1023 0 @ [1 :: real]))) 1023 = - 1 \<and>
   best_delta (replicate 1023 0 @ [1]) = Inr 0 \<and>
   compute_cte_correlation \<lparr>ncols = 1, rows = [[1]]\<rparr> \<lparr>ncols = 1, rows = [[1]]\<rparr> (1 / 1000)
     = Inr [1000 / 1001] \<and>
   match_pair \<lparr>ncols = 1, rows = [[1]]\<rparr> \<lparr>ncols = 1, rows = [[1]]\<rparr> [0] 30 = Inr (0, 0) \<and>
   (\<exists>d. best_delta [1000 / 1001] = Inr d \<and> 0 \<le> d \<and> d < int (length [0 :: int]) \<and>
        (0 :: int) = [0] ! nat d)"
proof -
  let ?s = "replicate 1023 0 @ [1 :: real]"
  let ?M = "\<lparr>ncols = 1, rows = [[1]]\<rparr>"
  have ne: "?s \<noteq> []" by simp
  have len: "length ?s = 1024" by simp
  have am: "np_argmax ?s = Inr 1023" by (rule np_argmax_last) simp
  from peak_selection[of ?s] len am
  have w: "wrap_around (int (length ?s)) 1023 = - 1 \<and> best_delta ?s = Inr 0"
    by blast
  note e = one_frame_scores
  note m = one_frame_match
  from peak_selection[of "[1000 / 1001]" _ ?M ?M "[0]" 30 0 0] e m
  have l: "\<exists>d. best_delta [1000 / 1001] = Inr d \<and> 0 \<le> d \<and> d < int (length [0 :: int]) \<and>
        (0 :: int) = [0] ! nat d"
    by blast
  from ne len am w e m l show ?thesis by blast
qed

text \<open>
  Claim C7. For two matrices of at least one frame each, the transform length \<open>N\<close> is a power
  of two, at least \<open>max Tq Tr\<close>, and no greater than any power of two that is at least
  \<open>max Tq Tr\<close>. Both padded arrays have \<open>N\<close> rows: the rows given, then rows of zeros. With
  equal widths the function returns the scores of the two padded arrays, and whatever score
  sequence it returns has length \<open>N\<close>.
\<close>

theorem transform_length:
  assumes "1 \<le> nrows q" and "1 \<le> nrows r"
  shows "\<exists>N. fft_len (nrows q) (nrows r) = Inr N \<and>
           (\<exists>k. N = 2 ^ k) \<and> max (nrows q) (nrows r) \<le> N \<and>
           (\<forall>j. max (nrows q) (nrows r) \<le> 2 ^ j \<longrightarrow> N \<le> 2 ^ j) \<and>
           length (pad_time N (ncols q) (rows q)) = N \<and>
           take (nrows q) (pad_time N (ncols q) (rows q)) = rows q \<and>
           drop (nrows q) (pad_time N (ncols q) (rows q))
             = replicate (N - nrows q) (replicate (ncols q) 0) \<and>
           length (pad_time N (ncols q) (rows r)) = N \<and>
           take (nrows r) (pad_time N (ncols q) (rows r)) = rows r \<and>
           drop (nrows r) (pad_time N (ncols q) (rows r))
             = replicate (N - nrows r) (replicate (ncols q) 0) \<and>
           (ncols r = ncols q \<longrightarrow>
              compute_cte_correlation q r lambda_val
                = Inr (cte_scores N (ncols q) (pad_time N (ncols q) (rows q))
                        (pad_time N (ncols q) (rows r)) lambda_val)) \<and>
           (\<forall>scores. compute_cte_correlation q r lambda_val = Inr scores \<longrightarrow> length scores = N)"
proof -
  have pos: "0 < max (nrows q) (nrows r)" using assms by simp
  from fft_len_spec[OF pos] obtain N where N: "fft_len (nrows q) (nrows r) = Inr N"
    and p2: "\<exists>k. N = 2 ^ k" and ge: "max (nrows q) (nrows r) \<le> N"
    and least: "\<forall>j. max (nrows q) (nrows r) \<le> 2 ^ j \<longrightarrow> N \<le> 2 ^ j" by blast
  have lq: "length (rows q) \<le> N" and lr: "length (rows r) \<le> N"
    using ge by (simp_all add: nrows_def)
  note pq = pad_time_props[OF lq, of "ncols q", folded nrows_def]
  note pr = pad_time_props[OF lr, of "ncols q", folded nrows_def]
  have eq: "ncols r = ncols q \<longrightarrow>
              compute_cte_correlation q r lambda_val
                = Inr (cte_scores N (ncols q) (pad_time N (ncols q) (rows q))
                        (pad_time N (ncols q) (rows r)) lambda_val)"
    by (simp add: compute_cte_correlation_def Let_def N assign_rows_def)
  have ln: "\<forall>scores. compute_cte_correlation q r lambda_val = Inr scores \<longrightarrow> length scores = N"
    by (auto simp: compute_cte_correlation_def Let_def N length_cte_scores split: sum.splits)
  from N p2 ge least pq pr eq ln show ?thesis by blast
qed

text \<open>
  Claim C2 fails as stated: a query of width 2 and a reference of width 1 differ in width,
  and the function returns scores; the single reference column is broadcast over the
  query's columns.
\<close>

theorem width_mismatch_counterexample:
  "ncols \<lparr>ncols = 2, rows = [[1, 2]]\<rparr> \<noteq> ncols \<lparr>ncols = 1, rows = [[5]]\<rparr> \<and>
   wf_matrix \<lparr>ncols = 2, rows = [[1, 2]]\<rparr> \<and> wf_matrix \<lparr>ncols = 1, rows = [[5]]\<rparr> \<and>
   compute_cte_correlation \<lparr>ncols = 2, rows = [[1, 2]]\<rparr> \<lparr>ncols = 1, rows = [[5]]\<rparr> (1 / 1000)
     = Inr [15000 / 5001]"
  using broadcast_scores by (simp add: wf_matrix_def)

text \<open>
  Claim C2, amended. For two matrices of at least one frame each: when the widths differ
  and the reference's width is not 1, the function fails with the \<^verbatim>\<open>ValueError\<close> of the
  padding assignment; when the widths are equal it returns a score sequence, of the
  transform length; when the reference's width is 1 and the query's is not, it returns the
  scores of the query against the reference column repeated across the query's width.
\<close>

theorem width_mismatch:
  assumes "1 \<le> nrows q" and "1 \<le> nrows r"
  shows "(ncols r \<noteq> ncols q \<and> ncols r \<noteq> 1 \<longrightarrow>
            compute_cte_correlation q r lambda_val = Inl (ValueError CouldNotBroadcast)) \<and>
         (ncols r = ncols q \<longrightarrow>
            (\<exists>scores. compute_cte_correlation q r lambda_val = Inr scores \<and>
                       length scores = 2 ^ ceillog2 (max (nrows q) (nrows r)))) \<and>
         (ncols r \<noteq> ncols q \<and> ncols r = 1 \<longrightarrow>
            compute_cte_correlation q r lambda_val
              = Inr (cte_scores (2 ^ ceillog2 (max (nrows q) (nrows r))) (ncols q)
                      (pad_time (2 ^ ceillog2 (max (nrows q) (nrows r))) (ncols q) (rows q))
                      (pad_time (2 ^ ceillog2 (max (nrows q) (nrows r))) (ncols q)
                         (map (\<lambda>row. replicate (ncols q) (row ! 0)) (rows r)))
                      lambda_val))"
proof -
  have pos: "0 < max (nrows q) (nrows r)" using assms by simp
  note N = fft_len_eq[OF pos]
  show ?thesis
    by (simp add: compute_cte_correlation_def Let_def N assign_rows_def length_cte_scores)
qed

text \<open>
  Claim C10. The clamped offset lies between 0 and \<open>N div 2\<close>. The lookup of a non-negative
  offset in the reference's mapping raises \<^verbatim>\<open>IndexError\<close> exactly when the offset is not
  below the mapping's length. And there are well-formed descriptor matrices of equal width,
  the query longer than the reference, with a mapping of one entry per reference frame, for
  which the clamped offset is \<open>N div 2\<close>, not below the number of reference frames, and the
  main loop's mapping step fails with \<^verbatim>\<open>IndexError\<close>.
\<close>

theorem lookup_out_of_range:
  "(\<forall>scores d. best_delta scores = Inr d \<longrightarrow> 0 \<le> d \<and> d \<le> int (length scores) div 2) \<and>
   (\<forall>(r_map :: int list) delta. 0 \<le> delta \<longrightarrow>
      (py_index r_map delta = Inl IndexError) = (int (length r_map) \<le> delta)) \<and>
   (\<exists>q_desc r_desc r_map r_fps scores.
      wf_matrix q_desc \<and> wf_matrix r_desc \<and> ncols q_desc = ncols r_desc \<and>
      nrows r_desc < nrows q_desc \<and> length r_map = nrows r_desc \<and> r_fps \<noteq> 0 \<and>
      compute_cte_correlation q_desc r_desc (1 / 1000) = Inr scores \<and>
      best_delta scores = Inr (int (length scores) div 2) \<and>
      int (nrows r_desc) \<le> int (length scores) div 2 \<and>
      match_pair q_desc r_desc r_map r_fps = Inl IndexError)"
proof (intro conjI allI impI)
  fix scores :: "real list" and d
  assume "best_delta scores = Inr d"
  then show "0 \<le> d" "d \<le> int (length scores) div 2"
    using best_delta_bounds by blast+
next
  fix r_map :: "int list" and delta :: int
  assume "0 \<le> delta"
  then show "(py_index r_map delta = Inl IndexError) = (int (length r_map) \<le> delta)"
    by (auto simp: py_index_def)
next
  let ?q = "\<lparr>ncols = 2, rows = [[1, 0], [0, 1]]\<rparr>"
  let ?r = "\<lparr>ncols = 2, rows = [[0, 1]]\<rparr>"
  have bd: "best_delta [0, 1000 / 2001] = Inr 1"
    by (simp add: best_delta_def np_argmax_def wrap_around_def)
  have mp: "match_pair ?q ?r [0] 30 = Inl IndexError"
    unfolding match_pair_def late_match_scores by (simp add: bd py_index_def)
  have "wf_matrix ?q \<and> wf_matrix ?r \<and> ncols ?q = ncols ?r \<and>
      nrows ?r < nrows ?q \<and> length [0::int] = nrows ?r \<and> (30::real) \<noteq> 0 \<and>
      compute_cte_correlation ?q ?r (1 / 1000) = Inr [0, 1000 / 2001] \<and>
      best_delta [0, 1000 / 2001] = Inr (int (length [0, 1000 / 2001 :: real]) div 2) \<and>
      int (nrows ?r) \<le> int (length [0, 1000 / 2001 :: real]) div 2 \<and>
      match_pair ?q ?r [0] 30 = Inl IndexError"
    by (simp add: wf_matrix_def nrows_def late_match_scores bd mp)
  then show "\<exists>q_desc r_desc r_map r_fps scores.
      wf_matrix q_desc \<and> wf_matrix r_desc \<and> ncols q_desc = ncols r_desc \<and>
      nrows r_desc < nrows q_desc \<and> length r_map = nrows r_desc \<and> r_fps \<noteq> 0 \<and>
      compute_cte_correlation q_desc r_desc (1 / 1000) = Inr scores \<and>
      best_delta scores = Inr (int (length scores) div 2) \<and>
      int (nrows r_desc) \<le> int (length scores) div 2 \<and>
      match_pair q_desc r_desc r_map r_fps = Inl IndexError"
    by blast
qed

lemma fft_len_three_five: "fft_len 3 5 = Inr 8"
proof -
  have "ceillog2 5 = 3" by (rule ceillog2_eqI) simp_all
  then show ?thesis using fft_len_eq[of 3 5] by simp
qed

theorem self_correlation_peak_witness:
  "rows \<lparr>ncols = 2, rows = [[1, 0], [0, 1]]\<rparr> \<noteq> [] \<and> (0 :: real) < 1 / 1000 \<and>
   (\<exists>scores. compute_cte_correlation \<lparr>ncols = 2, rows = [[1, 0], [0, 1]]\<rparr>
                 \<lparr>ncols = 2, rows = [[1, 0], [0, 1]]\<rparr> (1 / 1000) = Inr scores \<and>
              scores \<noteq> [] \<and> np_argmax scores = Inr 0 \<and> best_delta scores = Inr 0) \<and>
   [0, 3 :: int] \<noteq> [] \<and> (20 :: real) \<noteq> 0 \<and>
   match_pair \<lparr>ncols = 2, rows = [[1, 0], [0, 1]]\<rparr> \<lparr>ncols = 2, rows = [[1, 0], [0, 1]]\<rparr>
      [0, 3] 20 = Inr (0, 0)"
proof -
  let ?M = "\<lparr>ncols = 2, rows = [[1, 0], [0, 1]]\<rparr>"
  have a: "rows ?M \<noteq> []" by simp
  have b: "(0 :: real) < 1 / 1000" by simp
  have c: "[0, 3 :: int] \<noteq> []" and d: "(20 :: real) \<noteq> 0" by simp_all
  note T = self_correlation_peak[OF a b, of "[0, 3]" 20]
  from T have e: "\<exists>scores. compute_cte_correlation ?M ?M (1 / 1000) = Inr scores \<and>
              scores \<noteq> [] \<and> np_argmax scores = Inr 0 \<and> best_delta scores = Inr 0" by blast
  from T c d have "match_pair ?M ?M [0, 3] 20 = Inr ([0, 3] ! 0, real_of_int ([0, 3] ! 0) / 20)"
    by blast
  then have f: "match_pair ?M ?M [0, 3] 20 = Inr (0, 0)" by simp
  show ?thesis by (intro conjI a b e c d f)
qed

theorem transform_length_witness:
  "1 \<le> nrows \<lparr>ncols = 1, rows = [[1], [2], [3]]\<rparr> \<and>
   1 \<le> nrows \<lparr>ncols = 1, rows = [[1], [2], [3], [4], [5]]\<rparr> \<and>
   fft_len 3 5 = Inr 8 \<and>
   (\<exists>N. fft_len (nrows \<lparr>ncols = 1, rows = [[1], [2], [3]]\<rparr>)
            (nrows \<lparr>ncols = 1, rows = [[1], [2], [3], [4], [5]]\<rparr>) = Inr N \<and>
        max (nrows \<lparr>ncols = 1, rows = [[1], [2], [3]]\<rparr>)
            (nrows \<lparr>ncols = 1, rows = [[1], [2], [3], [4], [5]]\<rparr>) \<le> N \<and>
        (\<exists>scores. compute_cte_correlation \<lparr>ncols = 1, rows = [[1], [2], [3]]\<rparr>
            \<lparr>ncols = 1, rows = [[1], [2], [3], [4], [5]]\<rparr> (1 / 1000) = Inr scores \<and>
            length scores = N))"
proof -
  let ?q = "\<lparr>ncols = 1, rows = [[1], [2], [3]]\<rparr>"
  let ?r = "\<lparr>ncols = 1, rows = [[1], [2], [3], [4], [5]]\<rparr>"
  have a: "1 \<le> nrows ?q" and b: "1 \<le> nrows ?r" by (simp_all add: nrows_def)
  from transform_length[OF a b, of "1 / 1000"] obtain N where
    N: "fft_len (nrows ?q) (nrows ?r) = Inr N"
    and g: "max (nrows ?q) (nrows ?r) \<le> N"
    and c: "ncols ?r = ncols ?q \<longrightarrow>
              compute_cte_correlation ?q ?r (1 / 1000)
                = Inr (cte_scores N (ncols ?q) (pad_time N (ncols ?q) (rows ?q))
                        (pad_time N (ncols ?q) (rows ?r)) (1 / 1000))"
    and s: "\<forall>scores. compute_cte_correlation ?q ?r (1 / 1000) = Inr scores \<longrightarrow> length scores = N"
    by blast
  from c s have e: "\<exists>scores. compute_cte_correlation ?q ?r (1 / 1000) = Inr scores \<and>
            length scores = N" by simp
  from N g e have "\<exists>N. fft_len (nrows ?q) (nrows ?r) = Inr N \<and>
        max (nrows ?q) (nrows ?r) \<le> N \<and>
        (\<exists>scores. compute_cte_correlation ?q ?r (1 / 1000) = Inr scores \<and>
            length scores = N)" by blast
  with a b fft_len_three_five show ?thesis by blast
qed

theorem width_mismatch_witness:
  "1 \<le> nrows \<lparr>ncols = 2, rows = [[1, 2]]\<rparr> \<and> 1 \<le> nrows \<lparr>ncols = 3, rows = [[1, 2, 3]]\<rparr> \<and>
   ncols \<lparr>ncols = 3, rows = [[1, 2, 3]]\<rparr> \<noteq> ncols \<lparr>ncols = 2, rows = [[1, 2]]\<rparr> \<and>
   ncols \<lparr>ncols = 3, rows = [[1, 2, 3]]\<rparr> \<noteq> 1 \<and>
   compute_cte_correlation \<lparr>ncols = 2, rows = [[1, 2]]\<rparr> \<lparr>ncols = 3, rows = [[1, 2, 3]]\<rparr>
      (1 / 1000) = Inl (ValueError CouldNotBroadcast) \<and>
   (\<exists>scores. compute_cte_correlation \<lparr>ncols = 2, rows = [[1, 2]]\<rparr>
      \<lparr>ncols = 2, rows = [[1, 2]]\<rparr> (1 / 1000) = Inr scores \<and> length scores = 1)"
proof -
  let ?q = "\<lparr>ncols = 2, rows = [[1, 2]]\<rparr>"
  let ?r = "\<lparr>ncols = 3, rows = [[1, 2, 3]]\<rparr>"
  have a: "1 \<le> nrows ?q" and b: "1 \<le> nrows ?r" by (simp_all add: nrows_def)
  have c: "ncols ?r \<noteq> ncols ?q" and d: "ncols ?r \<noteq> 1" by simp_all
  from width_mismatch[OF a b, of "1 / 1000"] c d
  have e: "compute_cte_correlation ?q ?r (1 / 1000) = Inl (ValueError CouldNotBroadcast)"
    by blast
  from width_mismatch[OF a a, of "1 / 1000"]
  have "\<exists>scores. compute_cte_correlation ?q ?q (1 / 1000) = Inr scores \<and>
          length scores = 2 ^ ceillog2 (max (nrows ?q) (nrows ?q))" by blast
  then have f: "\<exists>scores. compute_cte_correlation ?q ?q (1 / 1000) = Inr scores \<and>
          length scores = 1" by (simp add: nrows_def)
  from a b c d e f show ?thesis by blast
qed

theorem lookup_out_of_range_witness:
  "(0 :: int) \<le> 1 \<and> py_index [0 :: int] 1 = Inl IndexError \<and> int (length [0 :: int]) \<le> 1 \<and>
   best_delta [0, 1000 / 2001] = Inr 1 \<and>
   (1 :: int) \<le> int (length [0, 1000 / 2001 :: real]) div 2"
proof -
  have a: "(0 :: int) \<le> 1" by simp
  have c: "int (length [0 :: int]) \<le> 1" by simp
  from lookup_out_of_range have
    "\<forall>(r_map :: int list) delta. 0 \<le> delta \<longrightarrow>
      (py_index r_map delta = Inl IndexError) = (int (length r_map) \<le> delta)" by blast
  with a c have b: "py_index [0 :: int] 1 = Inl IndexError" by blast
  have bd: "best_delta [0, 1000 / 2001] = Inr 1"
    by (simp add: best_delta_def np_argmax_def wrap_around_def)
  from lookup_out_of_range have
    "\<forall>scores d. best_delta scores = Inr d \<longrightarrow> 0 \<le> d \<and> d \<le> int (length scores) div 2"
    by blast
  with bd have d: "(1 :: int) \<le> int (length [0, 1000 / 2001 :: real]) div 2" by blast
  from a b c bd d show ?thesis by blast
qed

section \<open>Properties of the descriptor extractor and the reducer\<close>

lemma sum_squares_scaled:
  fixes n :: real
  shows "(\<Sum>x\<leftarrow>v. (x / n)\<^sup>2) = (\<Sum>x\<leftarrow>v. x\<^sup>2) / n\<^sup>2"
  by (induction v) (simp_all add: power_divide add_divide_distrib)

lemma l2norm_divide:
  "l2norm (map (\<lambda>x. x / c) v) = l2norm v / \<bar>c\<bar>"
proof -
  have "l2norm (map (\<lambda>x. x / c) v) = sqrt (\<Sum>x\<leftarrow>v. (x / c)\<^sup>2)"
    by (simp add: l2norm_def o_def)
  also have "\<dots> = sqrt ((\<Sum>x\<leftarrow>v. x\<^sup>2) / c\<^sup>2)"
    by (simp only: sum_squares_scaled)
  also have "\<dots> = l2norm v / \<bar>c\<bar>"
    by (simp add: real_sqrt_divide l2norm_def)
  finally show ?thesis .
qed

lemma l2norm_scaled:
  assumes "0 < l2norm v"
  shows "l2norm (map (\<lambda>x. x / l2norm v) v) = 1"
  using assms by (simp add: l2norm_divide)

lemma normalize_vec_props:
  "(1 / 10 ^ 6 < l2norm v \<longrightarrow> l2norm (normalize_vec v) = 1) \<and>
   (l2norm v \<le> 1 / 10 ^ 6 \<longrightarrow> normalize_vec v = v)"
proof (intro conjI impI)
  assume a: "1 / 10 ^ 6 < l2norm v"
  have "0 < l2norm v" by (rule less_trans[OF _ a]) simp
  then have "l2norm (map (\<lambda>x. x / l2norm v) v) = 1" by (rule l2norm_scaled)
  with a show "l2norm (normalize_vec v) = 1" by (simp add: normalize_vec_def Let_def)
next
  assume "l2norm v \<le> 1 / 10 ^ 6"
  then show "normalize_vec v = v" by (simp add: normalize_vec_def Let_def)
qed

lemma frame_vecs_nth:
  "length (frame_vecs T det fh pm pd hb prev imgs) = length imgs \<and>
   (\<forall>i<length imgs. frame_vecs T det fh pm pd hb prev imgs ! i =
       frame_vec T det fh pm pd hb (if i = 0 then prev else Some (imgs ! (i - 1))) (imgs ! i))"
proof (induction imgs arbitrary: prev)
  case Nil
  show ?case by simp
next
  case (Cons img rest)
  show ?case
  proof (intro conjI allI impI)
    show "length (frame_vecs T det fh pm pd hb prev (img # rest)) = length (img # rest)"
      using Cons[of "Some img"] by simp
  next
    fix i assume i: "i < length (img # rest)"
    show "frame_vecs T det fh pm pd hb prev (img # rest) ! i =
       frame_vec T det fh pm pd hb (if i = 0 then prev else Some ((img # rest) ! (i - 1)))
         ((img # rest) ! i)"
    proof (cases i)
      case 0
      then show ?thesis by simp
    next
      case (Suc j)
      with i have j: "j < length rest" by simp
      with Cons[of "Some img"] have
        "frame_vecs T det fh pm pd hb (Some img) rest ! j =
           frame_vec T det fh pm pd hb (if j = 0 then Some img else Some (rest ! (j - 1))) (rest ! j)"
        by blast
      then show ?thesis using Suc by (cases j) simp_all
    qed
  qed
qed

lemma vstack_vecs_rows:
  "vstack_vecs vs = Inr M \<Longrightarrow> rows M = vs \<and> vs \<noteq> []"
  by (auto simp: vstack_vecs_def split: list.splits if_splits)

lemma load_rows:
  assumes "load_frame_descriptors S T det fh imgs pm0 pd fit hb = Inr (descs, pm')"
  shows "model_in_use S det imgs pm0 pd fit = Inr pm' \<and>
         rows descs = frame_vecs T det fh pm' pd hb None imgs"
  using assms
  by (auto simp: load_frame_descriptors_def split: sum.splits dest: vstack_vecs_rows)

text \<open>
  Claim C8. In exact arithmetic, for every frame, when the norm of the concatenated vector
  exceeds \<open>1e-6\<close> the vector appended has norm 1, so within \<open>1e-5\<close> of 1; when the norm is
  at most \<open>1e-6\<close> the vector appended is the concatenated vector itself. The rows of the
  matrix that \<^verbatim>\<open>load_frame_descriptors\<close> returns are these vectors, one per frame and in
  frame order,
  each computed against the frame before it.
\<close>

theorem frame_vector_norm:
  "(1 / 10 ^ 6 < l2norm (raw_frame_vec T det fh pm pd hb prev img) \<longrightarrow>
      l2norm (frame_vec T det fh pm pd hb prev img) = 1 \<and>
      \<bar>l2norm (frame_vec T det fh pm pd hb prev img) - 1\<bar> \<le> 1 / 10 ^ 5) \<and>
   (l2norm (raw_frame_vec T det fh pm pd hb prev img) \<le> 1 / 10 ^ 6 \<longrightarrow>
      frame_vec T det fh pm pd hb prev img = raw_frame_vec T det fh pm pd hb prev img) \<and>
   (load_frame_descriptors S T det fh imgs pm0 pd fit hb = Inr (descs, pm') \<longrightarrow>
      nrows descs = length imgs \<and>
      (\<forall>i<length imgs. rows descs ! i =
         frame_vec T det fh pm' pd hb (if i = 0 then None else Some (imgs ! (i - 1))) (imgs ! i)))"
proof -
  note n = normalize_vec_props[of "raw_frame_vec T det fh pm pd hb prev img"]
  have A: "1 / 10 ^ 6 < l2norm (raw_frame_vec T det fh pm pd hb prev img) \<longrightarrow>
      l2norm (frame_vec T det fh pm pd hb prev img) = 1 \<and>
      \<bar>l2norm (frame_vec T det fh pm pd hb prev img) - 1\<bar> \<le> 1 / 10 ^ 5"
    using n by (simp add: frame_vec_def)
  have B: "l2norm (raw_frame_vec T det fh pm pd hb prev img) \<le> 1 / 10 ^ 6 \<longrightarrow>
      frame_vec T det fh pm pd hb prev img = raw_frame_vec T det fh pm pd hb prev img"
    using n by (simp add: frame_vec_def)
  have C: "load_frame_descriptors S T det fh imgs pm0 pd fit hb = Inr (descs, pm') \<longrightarrow>
      nrows descs = length imgs \<and>
      (\<forall>i<length imgs. rows descs ! i =
         frame_vec T det fh pm' pd hb (if i = 0 then None else Some (imgs ! (i - 1))) (imgs ! i))"
    using frame_vecs_nth[of T det fh pm' pd hb None imgs]
    by (auto simp: nrows_def dest!: load_rows)
  from A B C show ?thesis by blast
qed

lemma still_frames_load:
  "load_frame_descriptors keep_data project_all two_keypoints first_bin [0, 0] None 2 False 2
     = Inr (\<lparr>ncols = 4, rows = [[0, 0, 0, 0], [0, 0, 1, 0]]\<rparr>, None)"
  by (simp add: load_frame_descriptors_def model_in_use_def vstack_vecs_def frame_vec_def
      raw_frame_vec_def normalize_vec_def l2norm_def compute_hof_for_frame_def two_keypoints_def
      first_bin_def Let_def numeral_2_eq_2)

lemma still_frames_raw:
  "raw_frame_vec project_all two_keypoints first_bin None 2 2 None 0 = [0, 0, 0, 0] \<and>
   raw_frame_vec project_all two_keypoints first_bin None 2 2 (Some 0) 0 = [0, 0, 1, 0]"
  by (simp add: raw_frame_vec_def compute_hof_for_frame_def two_keypoints_def
      first_bin_def Let_def numeral_2_eq_2)

theorem frame_vector_norm_witness:
  "1 / 10 ^ 6 < l2norm (raw_frame_vec project_all two_keypoints first_bin None 2 2 (Some 0) 0) \<and>
   l2norm (frame_vec project_all two_keypoints first_bin None 2 2 (Some 0) 0) = 1 \<and>
   l2norm (raw_frame_vec project_all two_keypoints first_bin None 2 2 None 0) \<le> 1 / 10 ^ 6 \<and>
   frame_vec project_all two_keypoints first_bin None 2 2 None 0
     = raw_frame_vec project_all two_keypoints first_bin None 2 2 None 0 \<and>
   load_frame_descriptors keep_data project_all two_keypoints first_bin [0, 0] None 2 False 2
     = Inr (\<lparr>ncols = 4, rows = [[0, 0, 0, 0], [0, 0, 1, 0]]\<rparr>, None) \<and>
   nrows \<lparr>ncols = 4, rows = [[0, 0, 0, 0], [0, 0, 1, 0]]\<rparr> = length [0, 0 :: nat]"
proof -
  have a: "1 / 10 ^ 6 < l2norm (raw_frame_vec project_all two_keypoints first_bin None 2 2 (Some 0) 0)"
    by (simp add: still_frames_raw l2norm_def)
  have b: "l2norm (raw_frame_vec project_all two_keypoints first_bin None 2 2 None 0) \<le> 1 / 10 ^ 6"
    by (simp add: still_frames_raw l2norm_def)
  from frame_vector_norm[of project_all two_keypoints first_bin None 2 2 "Some 0" 0] a
  have c: "l2norm (frame_vec project_all two_keypoints first_bin None 2 2 (Some 0) 0) = 1"
    by blast
  from frame_vector_norm[of project_all two_keypoints first_bin None 2 2 None 0] b
  have d: "frame_vec project_all two_keypoints first_bin None 2 2 None 0
     = raw_frame_vec project_all two_keypoints first_bin None 2 2 None 0"
    by blast
  note e = still_frames_load
  from frame_vector_norm[where S = keep_data and T = project_all and det = two_keypoints
      and fh = first_bin and imgs = "[0, 0]" and ?pm0.0 = None and pd = 2 and fit = False
      and hb = 2 and descs = "\<lparr>ncols = 4, rows = [[0, 0, 0, 0], [0, 0, 1, 0]]\<rparr>"
      and pm' = None] e
  have f: "nrows \<lparr>ncols = 4, rows = [[0, 0, 0, 0], [0, 0, 1, 0]]\<rparr> = length [0, 0 :: nat]"
    by blast
  from a b c d e f show ?thesis by blast
qed

lemma vstack_same_width:
  assumes "ms \<noteq> []" and "\<forall>d\<in>set ms. ncols d = w"
  shows "vstack ms = Inr \<lparr>ncols = w, rows = concat (map rows ms)\<rparr>"
proof -
  from assms(1) obtain m rest where ms: "ms = m # rest" by (cases ms) auto
  with assms(2) have "ncols m = w" and "list_all (\<lambda>x. ncols x = ncols m) rest"
    by (auto simp: list_all_iff)
  then show ?thesis by (simp add: vstack_def ms)
qed

text \<open>
  Claim C9 fails as stated: the pool of one frame with one keypoint descriptor of width 128
  is not empty, and fitting 64 components on it fails, with the library's \<^verbatim>\<open>ValueError\<close>
  for more components than samples.
\<close>

theorem fit_small_pool_counterexample:
  "collect_descs (\<lambda>img. Some \<lparr>ncols = 128, rows = [replicate 128 1]\<rparr>) [0 :: nat] \<noteq> [] \<and>
   vstack (collect_descs (\<lambda>img. Some \<lparr>ncols = 128, rows = [replicate 128 1]\<rparr>) [0 :: nat])
     = Inr \<lparr>ncols = 128, rows = [replicate 128 1]\<rparr> \<and>
   load_frame_descriptors keep_data project_all
       (\<lambda>img. Some \<lparr>ncols = 128, rows = [replicate 128 1]\<rparr>) first_bin [0 :: nat] None 64 True 8
     = Inl (ValueError BadNComponents)"
  by (simp add: collect_descs_def List.map_filter_def vstack_def load_frame_descriptors_def
      model_in_use_def pca_fit_def nrows_def)

text \<open>
  Claim C9, amended. With \<open>fit_pca\<close> set and \<open>pca_dim\<close> at least 1: when no frame has
  keypoints the call fails with the \<^verbatim>\<open>ValueError\<close> of stacking an empty list; descriptor
  arrays of one width stack to the array of all their rows; when the stacked pool has at
  least \<open>pca_dim\<close> rows and columns the model fitted has \<open>pca_dim\<close> components and is fitted
  on that pool; when it has fewer rows or columns the call fails with the \<^verbatim>\<open>ValueError\<close> of
  \<^verbatim>\<open>PCA.fit\<close>.
\<close>

theorem fit_requirements:
  assumes "1 \<le> pca_dim"
  shows
  "(collect_descs detect imgs = [] \<longrightarrow>
      load_frame_descriptors solve transform detect fh imgs pm pca_dim True hb
        = Inl (ValueError NeedOneArray)) \<and>
   (collect_descs detect imgs \<noteq> [] \<and> (\<forall>d\<in>set (collect_descs detect imgs). ncols d = w) \<longrightarrow>
      vstack (collect_descs detect imgs)
        = Inr \<lparr>ncols = w, rows = concat (map rows (collect_descs detect imgs))\<rparr>) \<and>
   (vstack (collect_descs detect imgs) = Inr stacked \<and>
    pca_dim \<le> nrows stacked \<and> pca_dim \<le> ncols stacked \<longrightarrow>
      model_in_use solve detect imgs pm pca_dim True
        = Inr (Some \<lparr>n_components = pca_dim, fitted = solve pca_dim stacked\<rparr>)) \<and>
   (vstack (collect_descs detect imgs) = Inr stacked \<and>
    (nrows stacked < pca_dim \<or> ncols stacked < pca_dim) \<longrightarrow>
      load_frame_descriptors solve transform detect fh imgs pm pca_dim True hb
        = Inl (ValueError BadNComponents))"
proof (intro conjI impI)
  assume "collect_descs detect imgs = []"
  then show "load_frame_descriptors solve transform detect fh imgs pm pca_dim True hb
        = Inl (ValueError NeedOneArray)"
    by (simp add: load_frame_descriptors_def model_in_use_def vstack_def)
next
  assume "collect_descs detect imgs \<noteq> [] \<and> (\<forall>d\<in>set (collect_descs detect imgs). ncols d = w)"
  then show "vstack (collect_descs detect imgs)
        = Inr \<lparr>ncols = w, rows = concat (map rows (collect_descs detect imgs))\<rparr>"
    using vstack_same_width by blast
next
  assume "vstack (collect_descs detect imgs) = Inr stacked \<and>
    pca_dim \<le> nrows stacked \<and> pca_dim \<le> ncols stacked"
  then show "model_in_use solve detect imgs pm pca_dim True
        = Inr (Some \<lparr>n_components = pca_dim, fitted = solve pca_dim stacked\<rparr>)"
    by (simp add: model_in_use_def pca_fit_def)
next
  assume "vstack (collect_descs detect imgs) = Inr stacked \<and>
    (nrows stacked < pca_dim \<or> ncols stacked < pca_dim)"
  then show "load_frame_descriptors solve transform detect fh imgs pm pca_dim True hb
        = Inl (ValueError BadNComponents)"
    by (auto simp: load_frame_descriptors_def model_in_use_def pca_fit_def)
qed

theorem fit_requirements_witness:
  "(1 :: nat) \<le> 2 \<and>
   collect_descs two_keypoints [0, 0] = [] \<and>
   load_frame_descriptors keep_data project_all two_keypoints first_bin [0, 0] None 2 True 2
     = Inl (ValueError NeedOneArray) \<and>
   collect_descs two_keypoints [0, 1] \<noteq> [] \<and>
   vstack (collect_descs two_keypoints [0, 1]) = Inr \<lparr>ncols = 2, rows = [[1, 0], [0, 1]]\<rparr> \<and>
   2 \<le> nrows \<lparr>ncols = 2, rows = [[1, 0], [0, 1]]\<rparr> \<and>
   2 \<le> ncols \<lparr>ncols = 2, rows = [[1, 0], [0, 1]]\<rparr> \<and>
   model_in_use keep_data two_keypoints [0, 1] None 2 True
     = Inr (Some \<lparr>n_components = 2,
                   fitted = keep_data 2 \<lparr>ncols = 2, rows = [[1, 0], [0, 1]]\<rparr>\<rparr>) \<and>
   nrows \<lparr>ncols = 2, rows = [[1, 0], [0, 1]]\<rparr> < 3 \<and>
   load_frame_descriptors keep_data project_all two_keypoints first_bin [0, 1] None 3 True 2
     = Inl (ValueError BadNComponents)"
proof -
  let ?X = "\<lparr>ncols = 2, rows = [[1, 0], [0, 1]]\<rparr>"
  have a: "(1 :: nat) \<le> 2" and a3: "(1 :: nat) \<le> 3" by simp_all
  have b: "collect_descs two_keypoints [0, 0] = []"
    by (simp add: collect_descs_def List.map_filter_def two_keypoints_def)
  have c: "collect_descs two_keypoints [0, 1] = [?X]"
    by (simp add: collect_descs_def List.map_filter_def two_keypoints_def)
  then have c': "collect_descs two_keypoints [0, 1] \<noteq> []" by simp
  have d: "vstack (collect_descs two_keypoints [0, 1]) = Inr ?X"
    unfolding c by (simp add: vstack_def)
  have e: "2 \<le> nrows ?X" "2 \<le> ncols ?X" "nrows ?X < 3" by (simp_all add: nrows_def)
  from fit_requirements[OF a, of two_keypoints "[0, 0]" keep_data project_all first_bin None 2] b
  have f: "load_frame_descriptors keep_data project_all two_keypoints first_bin [0, 0] None 2 True 2
     = Inl (ValueError NeedOneArray)" by blast
  from fit_requirements[OF a, of two_keypoints "[0, 1]" keep_data project_all first_bin None 2 2 ?X]
    d e
  have g: "model_in_use keep_data two_keypoints [0, 1] None 2 True
     = Inr (Some \<lparr>n_components = 2, fitted = keep_data 2 ?X\<rparr>)" by blast
  from fit_requirements[OF a3, of two_keypoints "[0, 1]" keep_data project_all first_bin None 2 2 ?X]
    d e
  have h: "load_frame_descriptors keep_data project_all two_keypoints first_bin [0, 1] None 3 True 2
     = Inl (ValueError BadNComponents)" by blast
  from a b c' d e f g h show ?thesis by blast
qed

text \<open>
  Claim C1 does not hold of the code. The main loop calls \<^verbatim>\<open>load_frame_descriptors\<close> for the
  reference with \<open>fit_pca = True\<close>, so the model passed in plays no part: the call returns
  what it returns with no model passed, and the pair's descriptors are those of a reference
  call without a model. On the example, the model fitted on a query whose descriptors are
  all 1 is not the model that the reference call applies to a reference whose descriptors
  are all 2.
\<close>

theorem reference_call_refits:
  "load_frame_descriptors solve transform detect fh r_imgs (Some m) pca_dim True hb
     = load_frame_descriptors solve transform detect fh r_imgs None pca_dim True hb \<and>
   pair_descriptors solve transform detect fh q_imgs r_imgs pm0
     = (case load_frame_descriptors solve transform detect fh q_imgs pm0 64 (pm0 = None) 8 of
          Inl e \<Rightarrow> Inl e
        | Inr (q_desc, pm1) \<Rightarrow>
            (case load_frame_descriptors solve transform detect fh r_imgs None 64 True 8 of
               Inl e \<Rightarrow> Inl e
             | Inr (r_desc, pm2) \<Rightarrow> Inr (q_desc, r_desc, pm1))) \<and>
   model_in_use keep_data many_keypoints [1] None 64 True
     = Inr (Some \<lparr>n_components = 64,
                   fitted = \<lparr>ncols = 64, rows = replicate 64 (replicate 64 1)\<rparr>\<rparr>) \<and>
   model_in_use keep_data many_keypoints [2]
       (Some \<lparr>n_components = 64,
              fitted = \<lparr>ncols = 64, rows = replicate 64 (replicate 64 1)\<rparr>\<rparr>) 64 True
     = Inr (Some \<lparr>n_components = 64,
                   fitted = \<lparr>ncols = 64, rows = replicate 64 (replicate 64 2)\<rparr>\<rparr>) \<and>
   \<lparr>n_components = 64, fitted = \<lparr>ncols = 64, rows = replicate 64 (replicate 64 (2 :: real))\<rparr>\<rparr>
     \<noteq> \<lparr>n_components = 64, fitted = \<lparr>ncols = 64, rows = replicate 64 (replicate 64 1)\<rparr>\<rparr>"
proof -
  have A: "load_frame_descriptors solve transform detect fh r_imgs (Some m) pca_dim True hb
     = load_frame_descriptors solve transform detect fh r_imgs None pca_dim True hb"
    by (simp add: load_frame_descriptors_def model_in_use_def)
  have B: "pair_descriptors solve transform detect fh q_imgs r_imgs pm0
     = (case load_frame_descriptors solve transform detect fh q_imgs pm0 64 (pm0 = None) 8 of
          Inl e \<Rightarrow> Inl e
        | Inr (q_desc, pm1) \<Rightarrow>
            (case load_frame_descriptors solve transform detect fh r_imgs None 64 True 8 of
               Inl e \<Rightarrow> Inl e
             | Inr (r_desc, pm2) \<Rightarrow> Inr (q_desc, r_desc, pm1)))"
    by (simp add: pair_descriptors_def load_frame_descriptors_def model_in_use_def
        split: sum.splits prod.splits)
  have C: "model_in_use keep_data many_keypoints [1] None 64 True
     = Inr (Some \<lparr>n_components = 64,
                   fitted = \<lparr>ncols = 64, rows = replicate 64 (replicate 64 1)\<rparr>\<rparr>)"
    by (simp add: model_in_use_def collect_descs_def List.map_filter_def many_keypoints_def
        vstack_def pca_fit_def nrows_def keep_data_def)
  have D: "model_in_use keep_data many_keypoints [2]
       (Some \<lparr>n_components = 64,
              fitted = \<lparr>ncols = 64, rows = replicate 64 (replicate 64 1)\<rparr>\<rparr>) 64 True
     = Inr (Some \<lparr>n_components = 64,
                   fitted = \<lparr>ncols = 64, rows = replicate 64 (replicate 64 2)\<rparr>\<rparr>)"
    by (simp add: model_in_use_def collect_descs_def List.map_filter_def many_keypoints_def
        vstack_def pca_fit_def nrows_def keep_data_def)
  have E: "\<lparr>n_components = 64, fitted = \<lparr>ncols = 64, rows = replicate 64 (replicate 64 (2 :: real))\<rparr>\<rparr>
     \<noteq> \<lparr>n_components = 64, fitted = \<lparr>ncols = 64, rows = replicate 64 (replicate 64 1)\<rparr>\<rparr>"
    by simp
  from A B C D E show ?thesis by blast
qed

end
